theory Spec2Isabelle
  imports Main
begin

section \<open>Classic graph generators of networkx (generators/classic.py)\<close>

subsection \<open>Nodes and node specifications\<close>

text \<open>
  Node identifiers are Python hashables; the generators of this module only ever build
  integers and tuples of identifiers (\<open>(i, j)\<close> in \<open>grid_2d_graph\<close>).
\<close>

datatype node = NInt int | NTup "node list"

text \<open>
  An argument decorated with \<open>nodes_or_number\<close> is an integer or an iterable of nodes.
  The iterables that occur are Python lists (\<open>Nodes\<close>) and tuples (\<open>NodesT\<close>); they differ
  only in how a name renders them.
\<close>

datatype nodespec = Count int | Nodes "node list" | NodesT "node list"

text \<open>
  Modelled from the spec: \<open>nodes_or_number\<close> of \<open>networkx.utils\<close> is not in the
  source file. Section 4.1: an integer \<open>n\<close> resolves to \<open>(n, [0, 1, ..., n-1])\<close>, an
  iterable to the pair of the original value and its elements in order, without removing
  duplicates. \<open>range(n)\<close> is empty for \<open>n \<le> 0\<close>, and so is \<open>[0..n - 1]\<close>.
\<close>

definition nodes_or_number :: "nodespec \<Rightarrow> nodespec \<times> node list" where
  "nodes_or_number n =
     (n, case n of Count k \<Rightarrow> map NInt [0..k - 1] | Nodes xs \<Rightarrow> xs | NodesT xs \<Rightarrow> xs)"

text \<open>The resolved sequence as a value passed on: \<open>list(range(n))\<close> for an integer,
  \<open>tuple(n)\<close> for an iterable.\<close>

definition resolved :: "nodespec \<Rightarrow> node list \<Rightarrow> nodespec" where
  "resolved n_name nodes = (case n_name of Count k \<Rightarrow> Nodes nodes | _ \<Rightarrow> NodesT nodes)"

text \<open>\<open>isinstance(n_name, int)\<close>\<close>

fun isinstance_int :: "nodespec \<Rightarrow> bool" where
  "isinstance_int (Count k) = True"
| "isinstance_int (Nodes xs) = False"
| "isinstance_int (NodesT xs) = False"

text \<open>
  Modelled from the spec: \<open>pairwise\<close> of \<open>networkx.utils\<close>, the consecutive pairs
  \<open>(x0,x1),(x1,x2),...\<close> of a sequence, and \<open>accumulate\<close>, its running totals.
\<close>

definition pairwise_seq :: "'a list \<Rightarrow> ('a \<times> 'a) list" where
  "pairwise_seq xs = zip xs (tl xs)"

fun accumulate_from :: "int \<Rightarrow> int list \<Rightarrow> int list" where
  "accumulate_from s [] = []"
| "accumulate_from s (x # xs) = (s + x) # accumulate_from (s + x) xs"

definition accumulate :: "int list \<Rightarrow> int list" where
  "accumulate xs = accumulate_from 0 xs"

text \<open>\<open>itertools.combinations(nodes, 2)\<close> and \<open>itertools.permutations(nodes, 2)\<close>:
  pairs of positions \<open>i < j\<close> (respectively \<open>i \<noteq> j\<close>) in lexicographic order.\<close>

fun combinations2 :: "'a list \<Rightarrow> ('a \<times> 'a) list" where
  "combinations2 [] = []"
| "combinations2 (x # xs) = map (Pair x) xs @ combinations2 xs"

definition permutations2 :: "'a list \<Rightarrow> ('a \<times> 'a) list" where
  "permutations2 xs =
     concat (map (\<lambda>i. map (\<lambda>j. (xs ! i, xs ! j)) (filter (\<lambda>j. j \<noteq> i) [0..<length xs]))
                 [0..<length xs])"

text \<open>\<open>itertools.product(block1, block2)\<close>\<close>

definition product2 :: "'a list \<Rightarrow> 'b list \<Rightarrow> ('a \<times> 'b) list" where
  "product2 xs ys = concat (map (\<lambda>x. map (Pair x) ys) xs)"

subsection \<open>Rendering values in names\<close>

fun str_nat :: "nat \<Rightarrow> string" where
  "str_nat n =
     (if n < 10 then [char_of (48 + n)] else str_nat (n div 10) @ [char_of (48 + n mod 10)])"

declare str_nat.simps [simp del]

definition str_int :: "int \<Rightarrow> string" where
  "str_int i = (if i < 0 then ''-'' @ str_nat (nat (- i)) else str_nat (nat i))"

text \<open>\<open>', '.join(parts)\<close>\<close>

fun join_comma :: "string list \<Rightarrow> string" where
  "join_comma [] = []"
| "join_comma [s] = s"
| "join_comma (s # t # ss) = s @ '', '' @ join_comma (t # ss)"

definition repr_tuple :: "string list \<Rightarrow> string" where
  "repr_tuple ss = ''('' @ join_comma ss @ (if length ss = 1 then '','' else []) @ '')''"

definition repr_list :: "string list \<Rightarrow> string" where
  "repr_list ss = ''['' @ join_comma ss @ '']''"

fun repr_node :: "node \<Rightarrow> string" where
  "repr_node (NInt i) = str_int i"
| "repr_node (NTup vs) = repr_tuple (map repr_node vs)"

text \<open>\<open>"%s" % (n_name,)\<close> for the original value of a node specification.\<close>

fun str_spec :: "nodespec \<Rightarrow> string" where
  "str_spec (Count k) = str_int k"
| "str_spec (Nodes xs) = repr_list (map repr_node xs)"
| "str_spec (NodesT xs) = repr_tuple (map repr_node xs)"

text \<open>\<open>"%s" % m\<close> for a resolved pair \<open>(n_name, nodes)\<close>, a Python 2-tuple.\<close>

definition str_resolved :: "nodespec \<times> node list \<Rightarrow> string" where
  "str_resolved m =
     repr_tuple [str_spec (fst m), str_spec (resolved (fst m) (snd m))]"

subsection \<open>The graph container\<close>

text \<open>
  Modelled from the spec: the graph classes (\<open>nx.Graph\<close>, \<open>nx.DiGraph\<close>, the multigraphs)
  are not in the source file; sections 1 and 3 give their interface: \<open>add_node(s)\<close>,
  \<open>add_edge(s)\<close>, \<open>clear\<close>, \<open>is_directed\<close>, \<open>is_multigraph\<close>, \<open>copy\<close>, a name in the
  metadata and a \<open>block\<close> attribute on nodes. Nodes and edges are kept in insertion order.
  A simple graph collapses a repeated edge (in either direction when undirected), a
  multigraph accumulates parallel edges.
\<close>

record graph =
  is_directed :: bool
  is_multigraph :: bool
  name :: string
  nodes :: "node list"
  block :: "(node \<times> int) list"
  edges :: "(node \<times> node) list"

text \<open>\<open>nx.Graph()\<close>: the default container, simple and undirected.\<close>

definition Graph :: graph where
  "Graph = \<lparr>is_directed = False, is_multigraph = False, name = [], nodes = [], block = [],
            edges = []\<rparr>"

definition clear :: "graph \<Rightarrow> graph" where
  "clear G = G\<lparr>name := [], nodes := [], block := [], edges := []\<rparr>"

definition set_name :: "string \<Rightarrow> graph \<Rightarrow> graph" where
  "set_name s G = G\<lparr>name := s\<rparr>"

definition add_node :: "node \<Rightarrow> graph \<Rightarrow> graph" where
  "add_node v G = (if v \<in> set (nodes G) then G else G\<lparr>nodes := nodes G @ [v]\<rparr>)"

definition add_nodes_from :: "node list \<Rightarrow> graph \<Rightarrow> graph" where
  "add_nodes_from vs G = foldl (\<lambda>G v. add_node v G) G vs"

definition set_block :: "node \<Rightarrow> int \<Rightarrow> graph \<Rightarrow> graph" where
  "set_block v i G =
     G\<lparr>block := (if v \<in> fst ` set (block G)
                  then map (\<lambda>(k, x). if k = v then (k, i) else (k, x)) (block G)
                  else block G @ [(v, i)])\<rparr>"

text \<open>\<open>G.add_nodes_from(block, block=i)\<close>\<close>

definition add_nodes_from_block :: "node list \<Rightarrow> int \<Rightarrow> graph \<Rightarrow> graph" where
  "add_nodes_from_block vs i G = foldl (\<lambda>G v. set_block v i (add_node v G)) G vs"

definition has_edge :: "graph \<Rightarrow> node \<Rightarrow> node \<Rightarrow> bool" where
  "has_edge G u v =
     ((u, v) \<in> set (edges G) \<or> (\<not> is_directed G \<and> (v, u) \<in> set (edges G)))"

definition add_edge :: "node \<Rightarrow> node \<Rightarrow> graph \<Rightarrow> graph" where
  "add_edge u v G =
     (let G1 = add_node v (add_node u G)
      in if \<not> is_multigraph G1 \<and> has_edge G1 u v then G1
         else G1\<lparr>edges := edges G1 @ [(u, v)]\<rparr>)"

definition add_edges_from :: "(node \<times> node) list \<Rightarrow> graph \<Rightarrow> graph" where
  "add_edges_from es G = foldl (\<lambda>G e. add_edge (fst e) (snd e) G) G es"

definition number_of_nodes :: "graph \<Rightarrow> nat" where
  "number_of_nodes G = length (nodes G)"

definition number_of_edges :: "graph \<Rightarrow> nat" where
  "number_of_edges G = length (edges G)"

text \<open>The degree of a node: the edges at it, a self-loop counted twice; for a directed
  graph the in-degree plus the out-degree.\<close>

definition degree :: "graph \<Rightarrow> node \<Rightarrow> nat" where
  "degree G v =
     length (filter (\<lambda>e. fst e = v) (edges G)) + length (filter (\<lambda>e. snd e = v) (edges G))"

subsection \<open>The store of graph objects\<close>

text \<open>
  Graphs are mutable objects and \<open>create_using\<close> is a reference to one that the caller
  keeps. The store lists the objects; a reference is an index into it.
\<close>

type_synonym ref = nat
type_synonym heap = "graph list"

datatype error = NetworkXError string | IndexError | TypeError | RuntimeError | ZeroDivisionError

type_synonym 'a result = "(error + 'a) \<times> heap"

text \<open>\<open>G = nx.Graph()\<close>\<close>

definition new_Graph :: "heap \<Rightarrow> ref \<times> heap" where
  "new_Graph h = (length h, h @ [Graph])"

text \<open>A method call \<open>G.f(...)\<close> that mutates the object behind \<open>G\<close>: the object at index
  \<open>G\<close> of the store is replaced by \<open>f\<close> of it, every other object is kept.\<close>

fun mutate :: "ref \<Rightarrow> (graph \<Rightarrow> graph) \<Rightarrow> heap \<Rightarrow> heap" where
  "mutate G f [] = []"
| "mutate G f (g # h) = (case G of 0 \<Rightarrow> f g # h | Suc k \<Rightarrow> g # mutate k f h)"

subsection \<open>The generators\<close>

definition empty_graph :: "nodespec \<Rightarrow> ref option \<Rightarrow> heap \<Rightarrow> ref \<times> heap" where
  "empty_graph n create_using h =
     (let (G, h) = (case create_using of
                      None \<Rightarrow> new_Graph h
                    | Some r \<Rightarrow> (r, mutate r clear h));
          (n_name, nodes) = nodes_or_number n;
          h = mutate G (set_name (''empty_graph('' @ str_spec n_name @ '')'')) h;
          h = mutate G (add_nodes_from nodes) h
      in (G, h))"

definition complete_graph :: "nodespec \<Rightarrow> ref option \<Rightarrow> heap \<Rightarrow> ref \<times> heap" where
  "complete_graph n create_using h =
     (let (n_name, nodes) = nodes_or_number n;
          (G, h) = empty_graph n_name create_using h;
          h = mutate G (set_name (''complete_graph('' @ str_spec n_name @ '')'')) h
      in if length nodes > 1
         then (let edges = (if is_directed (h ! G) then permutations2 nodes
                            else combinations2 nodes)
               in (G, mutate G (add_edges_from edges) h))
         else (G, h))"

definition circulant_graph :: "int \<Rightarrow> int list \<Rightarrow> ref option \<Rightarrow> heap \<Rightarrow> ref \<times> heap" where
  "circulant_graph n offsets create_using h =
     (let (G, h) = empty_graph (Count n) create_using h;
          h = mutate G (set_name (''circulant_graph('' @ str_int n @ '', ['' @
                                   join_comma (map str_int offsets) @ ''])'')) h;
          h = foldl (\<lambda>h i.
                foldl (\<lambda>h j.
                  mutate G (add_edge (NInt i) (NInt ((i + j) mod n)))
                    (mutate G (add_edge (NInt i) (NInt ((i - j) mod n))) h)) h offsets)
                h [0..n - 1]
      in (G, h))"

text \<open>\<open>nodes[-1]\<close> and \<open>nodes[0]\<close> raise IndexError on an empty sequence.\<close>

definition cycle_graph :: "nodespec \<Rightarrow> ref option \<Rightarrow> heap \<Rightarrow> ref result" where
  "cycle_graph n create_using h =
     (let (n_orig, nodes) = nodes_or_number n;
          (G, h) = empty_graph (resolved n_orig nodes) create_using h;
          h = mutate G (set_name (''cycle_graph('' @ str_spec n_orig @ '')'')) h;
          h = mutate G (add_edges_from (pairwise_seq nodes)) h
      in if nodes = [] then (Inl IndexError, h)
         else (Inr G, mutate G (add_edge (last nodes) (hd nodes)) h))"

definition path_graph :: "nodespec \<Rightarrow> ref option \<Rightarrow> heap \<Rightarrow> ref \<times> heap" where
  "path_graph n create_using h =
     (let (n_name, nodes) = nodes_or_number n;
          (G, h) = empty_graph (resolved n_name nodes) create_using h;
          h = mutate G (set_name (''path_graph('' @ str_spec n_name @ '')'')) h;
          h = mutate G (add_edges_from (pairwise_seq nodes)) h
      in (G, h))"


text \<open>
  \<open>_tree_edges(n, r)\<close>. \<open>nodes\<close> is the iterator over \<open>range(n)\<close>, kept as the next
  identifier \<open>nxt\<close>. One round of the while loop pops the first parent; its inner for loop
  takes the next identifiers until \<open>r\<close> are taken or the iterator is exhausted.
\<close>

function tree_loop :: "int \<Rightarrow> int \<Rightarrow> int list \<Rightarrow> int \<Rightarrow> (int \<times> int) list" where
  "tree_loop n r parents nxt =
     (case parents of
        [] \<Rightarrow> []
      | source # ps \<Rightarrow>
          (let k = min (max r 0) (max (n - nxt) 0);
               targets = [nxt..nxt + k - 1]
           in map (Pair source) targets @ tree_loop n r (ps @ targets) (nxt + k)))"
  by pat_completeness auto
termination
  by (relation "measure (\<lambda>(n, r, parents, nxt). nat (n - nxt) + length parents)") auto

declare tree_loop.simps [simp del]

text \<open>
  The first \<open>next(nodes)\<close> stands outside the try block: on an empty range it raises
  StopIteration inside the generator, which the interpreter (PEP 479, Python 3.7 and later)
  hands to the consumer as RuntimeError. (Earlier interpreters end the generator there.)
\<close>

definition tree_edges :: "int \<Rightarrow> int \<Rightarrow> error + (node \<times> node) list" where
  "tree_edges n r =
     (if n \<le> 0 then Inl RuntimeError
      else Inr (map (\<lambda>e. (NInt (fst e), NInt (snd e))) (tree_loop n r [0] 1)))"

definition full_rary_tree :: "int \<Rightarrow> int \<Rightarrow> ref option \<Rightarrow> heap \<Rightarrow> ref result" where
  "full_rary_tree r n create_using h =
     (let (G, h) = empty_graph (Count n) create_using h
      in case tree_edges n r of
           Inl e \<Rightarrow> (Inl e, h)
         | Inr es \<Rightarrow> (Inr G, mutate G (add_edges_from es) h))"

text \<open>
  \<open>r ** (h + 1)\<close> is a float for a negative exponent (a ZeroDivisionError when \<open>r = 0\<close>);
  the float \<open>n\<close> then fails in \<open>range(n)\<close> and \<open>tuple(n)\<close> with TypeError, before any
  container is touched.
\<close>

definition balanced_tree :: "int \<Rightarrow> int \<Rightarrow> ref option \<Rightarrow> heap \<Rightarrow> ref result" where
  "balanced_tree r ht create_using h =
     (if r = 1 then full_rary_tree r (ht + 1) create_using h
      else if ht + 1 < 0 then (Inl (if r = 0 then ZeroDivisionError else TypeError), h)
      else full_rary_tree r ((1 - r ^ nat (ht + 1)) div (1 - r)) create_using h)"

definition ladder_graph :: "int \<Rightarrow> ref option \<Rightarrow> heap \<Rightarrow> ref result" where
  "ladder_graph n create_using h =
     (if create_using \<noteq> None \<and> is_directed (h ! the create_using)
      then (Inl (NetworkXError ''Directed Graph not supported''), h)
      else
       (let (G, h) = empty_graph (Count (2 * n)) create_using h;
            h = mutate G (set_name (''ladder_graph_('' @ str_int n @ '')'')) h;
            h = mutate G (add_edges_from (pairwise_seq (map NInt [0..n - 1]))) h;
            h = mutate G (add_edges_from (pairwise_seq (map NInt [n..2 * n - 1]))) h;
            h = mutate G (add_edges_from (map (\<lambda>v. (NInt v, NInt (v + n))) [0..n - 1])) h
        in (Inr G, h)))"

definition circular_ladder_graph :: "int \<Rightarrow> ref option \<Rightarrow> heap \<Rightarrow> ref result" where
  "circular_ladder_graph n create_using h =
     (case ladder_graph n create_using h of
        (Inl e, h) \<Rightarrow> (Inl e, h)
      | (Inr G, h) \<Rightarrow>
          (let h = mutate G (set_name (''circular_ladder_graph('' @ str_int n @ '')'')) h;
               h = mutate G (add_edge (NInt 0) (NInt (n - 1))) h;
               h = mutate G (add_edge (NInt n) (NInt (2 * n - 1))) h
           in (Inr G, h)))"

definition barbell_graph :: "int \<Rightarrow> int \<Rightarrow> ref option \<Rightarrow> heap \<Rightarrow> ref result" where
  "barbell_graph m1 m2 create_using h =
     (if create_using \<noteq> None \<and> is_directed (h ! the create_using)
      then (Inl (NetworkXError ''Directed Graph not supported''), h)
      else if m1 < 2
      then (Inl (NetworkXError ''Invalid graph description, m1 should be >=2''), h)
      else if m2 < 0
      then (Inl (NetworkXError ''Invalid graph description, m2 should be >=0''), h)
      else
       (let (G, h) = complete_graph (Count m1) create_using h;
            h = mutate G (set_name (''barbell_graph('' @ str_int m1 @ '','' @ str_int m2 @ '')'')) h;
            h = mutate G (add_nodes_from (map NInt [m1..m1 + m2 - 1 - 1])) h;
            h = (if m2 > 1
                 then mutate G (add_edges_from (pairwise_seq (map NInt [m1..m1 + m2 - 1]))) h
                 else h);
            h = mutate G (add_edges_from
                  (concat (map (\<lambda>u. map (\<lambda>v. (NInt u, NInt v)) [u + 1..2 * m1 + m2 - 1])
                               [m1 + m2..2 * m1 + m2 - 1]))) h;
            h = mutate G (add_edge (NInt (m1 - 1)) (NInt m1)) h;
            h = (if m2 > 0 then mutate G (add_edge (NInt (m1 + m2 - 1)) (NInt (m1 + m2))) h
                 else h)
        in (Inr G, h)))"

text \<open>
  Modelled from the spec: \<open>G.edges()\<close> of the container, for a simple undirected graph:
  every node in insertion order with its neighbours in the order their edges were added,
  an edge reported at the first of its endpoints met.
\<close>

definition neighbors :: "graph \<Rightarrow> node \<Rightarrow> node list" where
  "neighbors G n =
     concat (map (\<lambda>e. if fst e = n then [snd e] else if snd e = n then [fst e] else [])
                 (edges G))"

definition edges_view :: "graph \<Rightarrow> (node \<times> node) list" where
  "edges_view G =
     concat (map (\<lambda>k. map (Pair (nodes G ! k))
                        (filter (\<lambda>nbr. nbr \<notin> set (take k (nodes G)))
                                (neighbors G (nodes G ! k))))
                 [0..<length (nodes G)])"

fun dgm_edges_loop :: "ref \<Rightarrow> (node \<times> node) list \<Rightarrow> int \<Rightarrow> heap \<Rightarrow> int \<times> heap" where
  "dgm_edges_loop G [] new_node h = (new_node, h)"
| "dgm_edges_loop G (e # es) new_node h =
     (let h = mutate G (add_edge (NInt new_node) (fst e)) h;
          h = mutate G (add_edge (NInt new_node) (snd e)) h
      in dgm_edges_loop G es (new_node + 1) h)"

fun dgm_generations :: "ref \<Rightarrow> nat \<Rightarrow> int \<Rightarrow> heap \<Rightarrow> heap" where
  "dgm_generations G 0 new_node h = h"
| "dgm_generations G (Suc k) new_node h =
     (let last_generation_edges = edges_view (h ! G);
          (new_node, h) = dgm_edges_loop G last_generation_edges new_node h
      in dgm_generations G k new_node h)"

definition dorogovtsev_goltsev_mendes_graph :: "int \<Rightarrow> ref option \<Rightarrow> heap \<Rightarrow> ref result" where
  "dorogovtsev_goltsev_mendes_graph n create_using h =
     (if create_using \<noteq> None \<and> is_directed (h ! the create_using)
      then (Inl (NetworkXError ''Directed Graph not supported''), h)
      else if create_using \<noteq> None \<and> is_multigraph (h ! the create_using)
      then (Inl (NetworkXError ''Multigraph not supported''), h)
      else
       (let (G, h) = empty_graph (Count 0) create_using h;
            h = mutate G (set_name ''Dorogovtsev-Goltsev-Mendes Graph'') h;
            h = mutate G (add_edge (NInt 0) (NInt 1)) h
        in if n = 0 then (Inr G, h)
           else (Inr G, dgm_generations G (nat n) 2 h)))"

definition grid_2d_graph ::
  "nodespec \<Rightarrow> nodespec \<Rightarrow> bool \<Rightarrow> ref option \<Rightarrow> heap \<Rightarrow> ref \<times> heap" where
  "grid_2d_graph m n periodic create_using h =
     (let m = nodes_or_number m; n = nodes_or_number n;
          (G, h) = empty_graph (Count 0) create_using h;
          (row_name, rows) = m;
          (col_name, columns) = n;
          h = mutate G (set_name (''grid_2d_graph('' @ str_spec row_name @ '', '' @
                                   str_spec col_name @ '')'')) h;
          h = mutate G (add_nodes_from
                (concat (map (\<lambda>i. map (\<lambda>j. NTup [i, j]) columns) rows))) h;
          h = mutate G (add_edges_from
                (concat (map (\<lambda>(pi, i). map (\<lambda>j. (NTup [i, j], NTup [pi, j])) columns)
                             (pairwise_seq rows)))) h;
          h = mutate G (add_edges_from
                (concat (map (\<lambda>i. map (\<lambda>(pj, j). (NTup [i, j], NTup [i, pj]))
                                       (pairwise_seq columns)) rows))) h;
          h = (if is_directed (h ! G)
               then mutate G (add_edges_from
                      (concat (map (\<lambda>i. map (\<lambda>(pj, j). (NTup [i, pj], NTup [i, j]))
                                             (pairwise_seq columns)) rows)))
                    (mutate G (add_edges_from
                      (concat (map (\<lambda>(pi, i). map (\<lambda>j. (NTup [pi, j], NTup [i, j])) columns)
                                   (pairwise_seq rows)))) h)
               else h)
      in if periodic
         then
          (let h = (if length columns > 2
                    then (let f = hd columns; l = last columns;
                              h = mutate G (add_edges_from
                                    (map (\<lambda>i. (NTup [i, f], NTup [i, l])) rows)) h
                          in if is_directed (h ! G)
                             then mutate G (add_edges_from
                                    (map (\<lambda>i. (NTup [i, l], NTup [i, f])) rows)) h
                             else h)
                    else h);
               h = (if length rows > 2
                    then (let f = hd rows; l = last rows;
                              h = mutate G (add_edges_from
                                    (map (\<lambda>j. (NTup [f, j], NTup [l, j])) columns)) h
                          in if is_directed (h ! G)
                             then mutate G (add_edges_from
                                    (map (\<lambda>j. (NTup [l, j], NTup [f, j])) columns)) h
                             else h)
                    else h);
               h = mutate G (set_name (''periodic_grid_2d_graph('' @ str_resolved m @ '','' @
                                        str_resolved n @ '')'')) h
           in (G, h))
         else (G, h))"


definition null_graph :: "ref option \<Rightarrow> heap \<Rightarrow> ref \<times> heap" where
  "null_graph create_using h =
     (let (G, h) = empty_graph (Count 0) create_using h
      in (G, mutate G (set_name ''null_graph()'') h))"

definition trivial_graph :: "ref option \<Rightarrow> heap \<Rightarrow> ref \<times> heap" where
  "trivial_graph create_using h =
     (let (G, h) = empty_graph (Count 1) create_using h
      in (G, mutate G (set_name ''trivial_graph()'') h))"

text \<open>\<open>nodes[0]\<close> raises IndexError on an empty sequence, before the container is
  touched; the check for a directed container comes after \<open>empty_graph\<close>.\<close>

definition star_graph :: "nodespec \<Rightarrow> ref option \<Rightarrow> heap \<Rightarrow> ref result" where
  "star_graph n create_using h =
     (let (n_name, nodes) = nodes_or_number n;
          nodes_spec = (case n_name of Count k \<Rightarrow> Nodes (nodes @ [NInt k])
                                     | _ \<Rightarrow> NodesT nodes);
          nodes = (case n_name of Count k \<Rightarrow> nodes @ [NInt k] | _ \<Rightarrow> nodes)
      in if nodes = [] then (Inl IndexError, h)
         else
          (let first = hd nodes;
               (G, h) = empty_graph nodes_spec create_using h
           in if is_directed (h ! G)
              then (Inl (NetworkXError ''Directed Graph not supported''), h)
              else
               (let h = mutate G (add_edges_from (map (\<lambda>v. (first, v)) (tl nodes))) h;
                    h = mutate G (set_name (''star_graph('' @ str_spec n_name @ '')'')) h
                in (Inr G, h))))"

text \<open>\<open>n_name == 0\<close> holds for the integer 0 only; \<open>len(G)\<close> is the number of nodes.\<close>

definition wheel_graph :: "nodespec \<Rightarrow> ref option \<Rightarrow> heap \<Rightarrow> ref result" where
  "wheel_graph n create_using h =
     (let (n_name, nodes) = nodes_or_number n
      in if n_name = Count 0
         then (let (G, h) = empty_graph (Count 0) create_using h
               in (Inr G, mutate G (set_name ''wheel_graph(0)'') h))
         else
          (case star_graph (resolved n_name nodes) create_using h of
             (Inl e, h) \<Rightarrow> (Inl e, h)
           | (Inr G, h) \<Rightarrow>
               (let h = mutate G (set_name (''wheel_graph('' @ str_spec n_name @ '')'')) h
                in if number_of_nodes (h ! G) > 2
                   then (let h = mutate G (add_edges_from (pairwise_seq (tl nodes))) h;
                             h = mutate G (add_edge (last nodes) (nodes ! 1)) h
                         in (Inr G, h))
                   else (Inr G, h))))"

text \<open>
  \<open>[len(m_nodes) + i for i in n_nodes]\<close> adds an integer to every node of the stick: a
  node that is not an integer raises TypeError. \<open>N\<close> is a length, so the test \<open>N < 0\<close>
  of the source never fires and has no branch here.
\<close>

fun shift_nodes :: "int \<Rightarrow> node list \<Rightarrow> error + node list" where
  "shift_nodes k [] = Inr []"
| "shift_nodes k (NInt i # vs) =
     (case shift_nodes k vs of Inl e \<Rightarrow> Inl e | Inr ws \<Rightarrow> Inr (NInt (k + i) # ws))"
| "shift_nodes k (NTup xs # vs) = Inl TypeError"

definition lollipop_graph :: "nodespec \<Rightarrow> nodespec \<Rightarrow> ref option \<Rightarrow> heap \<Rightarrow> ref result" where
  "lollipop_graph m n create_using h =
     (let (m, m_nodes) = nodes_or_number m;
          (n, n_nodes) = nodes_or_number n;
          M = length m_nodes;
          N = length n_nodes
      in case (if isinstance_int m then shift_nodes (int (length m_nodes)) n_nodes
               else Inr n_nodes) of
           Inl e \<Rightarrow> (Inl e, h)
         | Inr n_nodes \<Rightarrow>
            (if create_using \<noteq> None \<and> is_directed (h ! the create_using)
             then (Inl (NetworkXError ''Directed Graph not supported''), h)
             else if M < 2
             then (Inl (NetworkXError ''Invalid graph description, m should be >=2''), h)
             else
              (let (G, h) = complete_graph (resolved m m_nodes) create_using h;
                   h = mutate G (add_nodes_from n_nodes) h;
                   h = (if N > 1 then mutate G (add_edges_from (pairwise_seq n_nodes)) h else h);
                   h = (if M > 0 \<and> N > 0
                        then mutate G (add_edge (last m_nodes) (hd n_nodes)) h else h);
                   h = mutate G (set_name (''lollipop_graph('' @ str_spec m @ '', '' @
                                            str_spec n @ '')'')) h
               in (Inr G, h))))"

text \<open>
  \<open>complete_multipartite_graph(*block_sizes)\<close>. The first try block succeeds exactly when
  all arguments are integers and then makes the blocks consecutive ranges; otherwise the
  arguments themselves are the blocks, and adding the nodes of a block that is an integer
  raises.
\<close>

fun all_ints :: "nodespec list \<Rightarrow> int list option" where
  "all_ints [] = Some []"
| "all_ints (Count k # bs) = (case all_ints bs of None \<Rightarrow> None | Some ks \<Rightarrow> Some (k # ks))"
| "all_ints (b # bs) = None"

definition blocks_of :: "nodespec list \<Rightarrow> nodespec list" where
  "blocks_of block_sizes =
     (case all_ints block_sizes of
        Some ks \<Rightarrow> map (\<lambda>(start, end). Nodes (map NInt [start..end - 1]))
                      (pairwise_seq (accumulate (0 # ks)))
      | None \<Rightarrow> block_sizes)"

fun add_blocks :: "ref \<Rightarrow> int \<Rightarrow> nodespec list \<Rightarrow> heap \<Rightarrow> (error + unit) \<times> heap" where
  "add_blocks G i [] h = (Inr (), h)"
| "add_blocks G i (Count k # bs) h =
     (Inl (NetworkXError ''Arguments must be all ints or all iterables''), h)"
| "add_blocks G i (Nodes vs # bs) h =
     add_blocks G (i + 1) bs (mutate G (add_nodes_from_block vs i) h)"
| "add_blocks G i (NodesT vs # bs) h =
     add_blocks G (i + 1) bs (mutate G (add_nodes_from_block vs i) h)"

fun block_nodes :: "nodespec \<Rightarrow> node list" where
  "block_nodes (Count k) = []"
| "block_nodes (Nodes vs) = vs"
| "block_nodes (NodesT vs) = vs"

definition complete_multipartite_graph :: "nodespec list \<Rightarrow> heap \<Rightarrow> ref result" where
  "complete_multipartite_graph block_sizes h =
     (let (G, h) = new_Graph h;
          h = mutate G (set_name (''complete_multiparite_graph'' @
                                   repr_tuple (map str_spec block_sizes))) h
      in if length block_sizes = 0 then (Inr G, h)
         else
          (let blocks = blocks_of block_sizes
           in case add_blocks G 0 blocks h of
                (Inl e, h) \<Rightarrow> (Inl e, h)
              | (Inr u, h) \<Rightarrow>
                  (Inr G, foldl (\<lambda>h (block1, block2).
                             mutate G (add_edges_from
                               (product2 (block_nodes block1) (block_nodes block2))) h)
                           h (combinations2 blocks))))"

text \<open>\<open>turan_graph(n, r)\<close> on integers (the isinstance check is the type of the model).\<close>

definition partitions :: "int \<Rightarrow> int \<Rightarrow> int list" where
  "partitions n r = replicate (nat (r - n mod r)) (n div r) @ replicate (nat (n mod r)) (n div r + 1)"

definition turan_graph :: "int \<Rightarrow> int \<Rightarrow> heap \<Rightarrow> ref result" where
  "turan_graph n r h =
     (if \<not> (1 \<le> r \<and> r \<le> n) then (Inl (NetworkXError ''Must satisfy 1 <= r <= n''), h)
      else
       (case complete_multipartite_graph (map Count (partitions n r)) h of
          (Inl e, h) \<Rightarrow> (Inl e, h)
        | (Inr G, h) \<Rightarrow>
            (Inr G, mutate G (set_name (''turan_graph('' @ str_int n @ '','' @ str_int r @ '')'')) h)))"


text \<open>
  Modelled from the spec: \<open>G.copy()\<close>, \<open>nx.cartesian_product\<close>, \<open>nx.relabel_nodes\<close> and
  \<open>flatten\<close> are library calls outside the source file (sections 1 and 4.3): the product
  graph is a new graph on the pairs \<open>(u, v)\<close> whose edges change one coordinate along an edge
  of the factor; relabelling builds a new graph of the same variant; \<open>flatten\<close> turns nested
  tuple labels into flat ones.
\<close>

definition copy :: "ref \<Rightarrow> heap \<Rightarrow> ref \<times> heap" where
  "copy G h = (length h, h @ [h ! G])"

definition cartesian_product :: "ref \<Rightarrow> ref \<Rightarrow> heap \<Rightarrow> ref \<times> heap" where
  "cartesian_product Gr Hr h =
     (let G = h ! Gr; H = h ! Hr;
          GH = \<lparr>is_directed = is_directed G, is_multigraph = is_multigraph G \<or> is_multigraph H,
                name = [], nodes = [], block = [], edges = []\<rparr>;
          GH = add_nodes_from [NTup [u, v]. u \<leftarrow> nodes G, v \<leftarrow> nodes H] GH;
          GH = add_edges_from [(NTup [fst e, x], NTup [snd e, x]). e \<leftarrow> edges G, x \<leftarrow> nodes H] GH;
          GH = add_edges_from [(NTup [x, fst e], NTup [x, snd e]). x \<leftarrow> nodes G, e \<leftarrow> edges H] GH;
          GH = set_name (''Cartesian product('' @ name G @ '','' @ name H @ '')'') GH
      in (length h, h @ [GH]))"

definition relabel_nodes :: "ref \<Rightarrow> (node \<Rightarrow> node) \<Rightarrow> heap \<Rightarrow> ref \<times> heap" where
  "relabel_nodes Gr mapping h =
     (let G = h ! Gr;
          H = \<lparr>is_directed = is_directed G, is_multigraph = is_multigraph G,
               name = ''('' @ name G @ '')'', nodes = [], block = [], edges = []\<rparr>;
          H = add_edges_from (map (\<lambda>e. (mapping (fst e), mapping (snd e))) (edges G)) H;
          H = add_nodes_from (map mapping (nodes G)) H
      in (length h, h @ [H]))"

fun flatten :: "node \<Rightarrow> node" where
  "flatten (NInt i) = NInt i"
| "flatten (NTup vs) =
     NTup (concat (map (\<lambda>v. case flatten v of NTup ws \<Rightarrow> ws | w \<Rightarrow> [w]) vs))"

text \<open>\<open>func\<close> of \<open>grid_graph\<close>: \<open>cycle_graph\<close> if periodic, \<open>path_graph\<close> otherwise, called
  without \<open>create_using\<close>.\<close>

definition grid_func :: "bool \<Rightarrow> nodespec \<Rightarrow> heap \<Rightarrow> ref result" where
  "grid_func periodic d h =
     (if periodic then cycle_graph d None h
      else (let (G, h) = path_graph d None h in (Inr G, h)))"

text \<open>The while loop of \<open>grid_graph\<close>; the list holds the remaining dimensions in the order
  \<open>dim.pop()\<close> takes them (last first).\<close>

fun grid_loop :: "bool \<Rightarrow> nodespec list \<Rightarrow> ref \<Rightarrow> heap \<Rightarrow> ref result" where
  "grid_loop periodic [] G h = (Inr G, h)"
| "grid_loop periodic (current_dim # ds) G h =
     (let (Gold, h) = copy G h
      in case grid_func periodic current_dim h of
           (Inl e, h) \<Rightarrow> (Inl e, h)
         | (Inr Gnew, h) \<Rightarrow>
             (let (G, h) = cartesian_product Gnew Gold h
              in grid_loop periodic ds G h))"

definition grid_graph :: "nodespec list \<Rightarrow> bool \<Rightarrow> heap \<Rightarrow> ref result" where
  "grid_graph dim periodic h =
     (let dlabel = repr_list (map str_spec dim)
      in case rev dim of
           [] \<Rightarrow> (let (G, h) = empty_graph (Count 0) None h
                  in (Inr G, mutate G (set_name (''grid_graph('' @ dlabel @ '')'')) h))
         | current_dim # ds \<Rightarrow>
             (case grid_func periodic current_dim h of
                (Inl e, h) \<Rightarrow> (Inl e, h)
              | (Inr G, h) \<Rightarrow>
                  (case grid_loop periodic ds G h of
                     (Inl e, h) \<Rightarrow> (Inl e, h)
                   | (Inr G, h) \<Rightarrow>
                       (let (H, h) = relabel_nodes G flatten h
                        in (Inr H, mutate H (set_name (''grid_graph('' @ dlabel @ '')'')) h)))))"

text \<open>\<open>dim = n * [2]\<close> is the empty list for \<open>n \<le> 0\<close>.\<close>

definition hypercube_graph :: "int \<Rightarrow> heap \<Rightarrow> ref result" where
  "hypercube_graph n h =
     (case grid_graph (replicate (nat n) (Count 2)) False h of
        (Inl e, h) \<Rightarrow> (Inl e, h)
      | (Inr G, h) \<Rightarrow> (Inr G, mutate G (set_name (''hypercube_graph_('' @ str_int n @ '')'')) h))"

subsection \<open>The public call surface\<close>

text \<open>
  A call of a public generator with its arguments. \<open>create_using\<close> is passed by keyword;
  a function whose signature has no such parameter (\<open>grid_graph(dim, periodic=False)\<close>,
  \<open>hypercube_graph(n)\<close>, \<open>turan_graph(n, r)\<close>, \<open>complete_multipartite_graph(*block_sizes)\<close>)
  rejects the keyword with TypeError before its body runs.
\<close>

datatype generator =
    Full_rary_tree int int
  | Balanced_tree int int
  | Barbell_graph int int
  | Complete_graph nodespec
  | Circular_ladder_graph int
  | Circulant_graph int "int list"
  | Cycle_graph nodespec
  | Dorogovtsev_goltsev_mendes_graph int
  | Empty_graph nodespec
  | Grid_2d_graph nodespec nodespec bool
  | Grid_graph "nodespec list" bool
  | Hypercube_graph int
  | Ladder_graph int
  | Lollipop_graph nodespec nodespec
  | Null_graph
  | Path_graph nodespec
  | Star_graph nodespec
  | Trivial_graph
  | Turan_graph int int
  | Wheel_graph nodespec
  | Complete_multipartite_graph "nodespec list"

fun has_create_using :: "generator \<Rightarrow> bool" where
  "has_create_using (Grid_graph dim periodic) = False"
| "has_create_using (Hypercube_graph n) = False"
| "has_create_using (Turan_graph n r) = False"
| "has_create_using (Complete_multipartite_graph block_sizes) = False"
| "has_create_using g = True"

definition returning :: "ref \<times> heap \<Rightarrow> ref result" where
  "returning p = (Inr (fst p), snd p)"

fun run :: "generator \<Rightarrow> ref option \<Rightarrow> heap \<Rightarrow> ref result" where
  "run (Full_rary_tree r n) cu h = full_rary_tree r n cu h"
| "run (Balanced_tree r ht) cu h = balanced_tree r ht cu h"
| "run (Barbell_graph m1 m2) cu h = barbell_graph m1 m2 cu h"
| "run (Complete_graph n) cu h = returning (complete_graph n cu h)"
| "run (Circular_ladder_graph n) cu h = circular_ladder_graph n cu h"
| "run (Circulant_graph n offsets) cu h = returning (circulant_graph n offsets cu h)"
| "run (Cycle_graph n) cu h = cycle_graph n cu h"
| "run (Dorogovtsev_goltsev_mendes_graph n) cu h = dorogovtsev_goltsev_mendes_graph n cu h"
| "run (Empty_graph n) cu h = returning (empty_graph n cu h)"
| "run (Grid_2d_graph m n periodic) cu h = returning (grid_2d_graph m n periodic cu h)"
| "run (Grid_graph dim periodic) cu h = grid_graph dim periodic h"
| "run (Hypercube_graph n) cu h = hypercube_graph n h"
| "run (Ladder_graph n) cu h = ladder_graph n cu h"
| "run (Lollipop_graph m n) cu h = lollipop_graph m n cu h"
| "run Null_graph cu h = returning (null_graph cu h)"
| "run (Path_graph n) cu h = returning (path_graph n cu h)"
| "run (Star_graph n) cu h = star_graph n cu h"
| "run Trivial_graph cu h = returning (trivial_graph cu h)"
| "run (Turan_graph n r) cu h = turan_graph n r h"
| "run (Wheel_graph n) cu h = wheel_graph n cu h"
| "run (Complete_multipartite_graph block_sizes) cu h = complete_multipartite_graph block_sizes h"

definition call :: "generator \<Rightarrow> ref option \<Rightarrow> heap \<Rightarrow> ref result" where
  "call g create_using h =
     (if create_using \<noteq> None \<and> \<not> has_create_using g then (Inl TypeError, h)
      else run g create_using h)"


subsection \<open>Observations used in the statements\<close>

text \<open>The caller-supplied reference is a live object of the store.\<close>

definition valid_cu :: "ref option \<Rightarrow> heap \<Rightarrow> bool" where
  "valid_cu cu h = (case cu of None \<Rightarrow> True | Some r \<Rightarrow> r < length h)"

text \<open>Where \<open>empty_graph\<close> puts its graph: a new object at the end of the store, or the
  caller's object; the graph it starts from; and the store with that object set.\<close>

definition target :: "ref option \<Rightarrow> heap \<Rightarrow> ref" where
  "target cu h = (case cu of None \<Rightarrow> length h | Some r \<Rightarrow> r)"

definition base :: "ref option \<Rightarrow> heap \<Rightarrow> graph" where
  "base cu h = (case cu of None \<Rightarrow> Graph | Some r \<Rightarrow> clear (h ! r))"

definition place :: "ref option \<Rightarrow> heap \<Rightarrow> graph \<Rightarrow> heap" where
  "place cu h g = (case cu of None \<Rightarrow> h @ [g] | Some r \<Rightarrow> h[r := g])"

text \<open>A call returned the graph \<open>g\<close> (the object behind the returned reference).\<close>

definition returns :: "ref result \<Rightarrow> graph \<Rightarrow> bool" where
  "returns res g = (case res of (Inr G, h) \<Rightarrow> G < length h \<and> h ! G = g | (Inl e, h) \<Rightarrow> False)"

text \<open>The edges of an undirected graph as unordered pairs.\<close>

definition edge_set :: "graph \<Rightarrow> node set set" where
  "edge_set g = (\<lambda>e. {fst e, snd e}) ` set (edges g)"

text \<open>No edge of the set occurs in both directions (so none is a self-loop).\<close>

definition one_way :: "(node \<times> node) set \<Rightarrow> bool" where
  "one_way S = (\<forall>e \<in> S. (snd e, fst e) \<notin> S)"

text \<open>Pure counterparts of the loops of \<open>complete_multipartite_graph\<close>, used to state what
  it builds: the nodes added block by block, the consecutive ranges that integer block sizes
  stand for, the edges between distinct blocks, and the number of such edges.\<close>

fun blocks_added :: "int \<Rightarrow> node list list \<Rightarrow> graph \<Rightarrow> graph" where
  "blocks_added i [] g = g"
| "blocks_added i (vs # vss) g = blocks_added (i + 1) vss (add_nodes_from_block vs i g)"

fun range_blocks :: "int \<Rightarrow> int list \<Rightarrow> int list list" where
  "range_blocks s [] = []"
| "range_blocks s (k # ks) = [s..s + k - 1] # range_blocks (s + k) ks"

fun pair_products :: "int list \<Rightarrow> int" where
  "pair_products [] = 0"
| "pair_products (k # ks) = k * sum_list ks + pair_products ks"

definition cross_edges :: "'a list list \<Rightarrow> ('a \<times> 'a) list" where
  "cross_edges bs = concat (map (\<lambda>p. product2 (fst p) (snd p)) (combinations2 bs))"

text \<open>What \<open>grid_2d_graph(m, n)\<close> builds in a new container for integers \<open>m\<close> and \<open>n\<close>: the
  node and edge sequences of its generator expressions, the graph without and with the
  periodic edges, and the edge sets these graphs have.\<close>

definition grid_nodes :: "node list \<Rightarrow> node list \<Rightarrow> node list" where
  "grid_nodes rows columns = concat (map (\<lambda>i. map (\<lambda>j. NTup [i, j]) columns) rows)"

definition grid_row_edges :: "node list \<Rightarrow> node list \<Rightarrow> (node \<times> node) list" where
  "grid_row_edges rows columns =
     concat (map (\<lambda>(pi, i). map (\<lambda>j. (NTup [i, j], NTup [pi, j])) columns) (pairwise_seq rows))"

definition grid_column_edges :: "node list \<Rightarrow> node list \<Rightarrow> (node \<times> node) list" where
  "grid_column_edges rows columns =
     concat (map (\<lambda>i. map (\<lambda>(pj, j). (NTup [i, j], NTup [i, pj])) (pairwise_seq columns)) rows)"

definition grid_lattice :: "int \<Rightarrow> int \<Rightarrow> graph" where
  "grid_lattice m n =
     add_edges_from (grid_column_edges (map NInt [0..m - 1]) (map NInt [0..n - 1]))
       (add_edges_from (grid_row_edges (map NInt [0..m - 1]) (map NInt [0..n - 1]))
          (add_nodes_from (grid_nodes (map NInt [0..m - 1]) (map NInt [0..n - 1]))
             (set_name (''grid_2d_graph('' @ str_int m @ '', '' @ str_int n @ '')'')
                (set_name (''empty_graph('' @ str_int 0 @ '')'') Graph))))"

definition grid_wrapped :: "int \<Rightarrow> int \<Rightarrow> graph" where
  "grid_wrapped m n =
     set_name (''periodic_grid_2d_graph('' @ str_resolved (nodes_or_number (Count m)) @ '','' @
               str_resolved (nodes_or_number (Count n)) @ '')'')
       ((if 2 < m then add_edges_from
                         (map (\<lambda>j. (NTup [NInt 0, j], NTup [NInt (m - 1), j])) (map NInt [0..n - 1]))
         else (\<lambda>g. g))
          ((if 2 < n then add_edges_from
                            (map (\<lambda>i. (NTup [i, NInt 0], NTup [i, NInt (n - 1)])) (map NInt [0..m - 1]))
            else (\<lambda>g. g))
             (grid_lattice m n)))"

definition lattice_edges :: "int \<Rightarrow> int \<Rightarrow> (node \<times> node) set" where
  "lattice_edges m n =
     {(NTup [NInt (a + 1), NInt b], NTup [NInt a, NInt b]) | a b.
        0 \<le> a \<and> a \<le> m - 2 \<and> 0 \<le> b \<and> b \<le> n - 1} \<union>
     {(NTup [NInt a, NInt (b + 1)], NTup [NInt a, NInt b]) | a b.
        0 \<le> a \<and> a \<le> m - 1 \<and> 0 \<le> b \<and> b \<le> n - 2}"

definition wrap_edges :: "int \<Rightarrow> int \<Rightarrow> (node \<times> node) set" where
  "wrap_edges m n =
     {(NTup [NInt a, NInt 0], NTup [NInt a, NInt (n - 1)]) | a. 0 \<le> a \<and> a \<le> m - 1} \<union>
     {(NTup [NInt 0, NInt b], NTup [NInt (m - 1), NInt b]) | b. 0 \<le> b \<and> b \<le> n - 1}"

definition column_wrap_edges :: "int \<Rightarrow> int \<Rightarrow> (node \<times> node) set" where
  "column_wrap_edges m n =
     {(NTup [NInt a, NInt 0], NTup [NInt a, NInt (n - 1)]) | a. 0 \<le> a \<and> a \<le> m - 1}"

definition row_wrap_edges :: "int \<Rightarrow> int \<Rightarrow> (node \<times> node) set" where
  "row_wrap_edges m n =
     {(NTup [NInt 0, NInt b], NTup [NInt (m - 1), NInt b]) | b. 0 \<le> b \<and> b \<le> n - 1}"

text \<open>What a generator with a \<open>create_using\<close> parameter does to the store when it returns:
  the reference returned is the caller's object (or the new object at the end of the store),
  nothing else changed, the object has the variant of the container and carries the name
  \<open>l\<close>. A call that raises is left open.\<close>

definition fills :: "ref option \<Rightarrow> heap \<Rightarrow> ref result \<Rightarrow> string \<Rightarrow> bool" where
  "fills cu h res l =
     (case res of
        (Inl e, h') \<Rightarrow> True
      | (Inr G, h') \<Rightarrow>
          G = target cu h \<and>
          (\<exists>g. h' = place cu h g \<and> is_directed g = is_directed (base cu h) \<and>
               is_multigraph g = is_multigraph (base cu h) \<and> name g = l))"

text \<open>What a generator that builds its own container does when it returns: the object
  returned is new, the objects the store held are as they were, and the object is a simple
  undirected graph of name \<open>l\<close>.\<close>

definition fresh :: "heap \<Rightarrow> ref result \<Rightarrow> string \<Rightarrow> bool" where
  "fresh h res l =
     (case res of
        (Inl e, h') \<Rightarrow> True
      | (Inr G, h') \<Rightarrow>
          length h \<le> G \<and> G < length h' \<and> take (length h) h' = h \<and>
          \<not> is_directed (h' ! G) \<and> \<not> is_multigraph (h' ! G) \<and> name (h' ! G) = l)"

definition simple_at :: "heap \<Rightarrow> ref \<Rightarrow> bool" where
  "simple_at h G = (G < length h \<and> \<not> is_directed (h ! G) \<and> \<not> is_multigraph (h ! G))"

text \<open>Two calls end alike: when the first returns, it returns its output container,
  \<open>g\<close> put in it and nothing else changed, and the second returns its own output
  container with the same \<open>g\<close> put in it.\<close>

definition alike ::
  "ref option \<Rightarrow> heap \<Rightarrow> ref option \<Rightarrow> heap \<Rightarrow> ref result \<Rightarrow> ref result \<Rightarrow> bool" where
  "alike cu h cu' k res res' =
     (case res of
        (Inl e, h') \<Rightarrow> True
      | (Inr G, h') \<Rightarrow>
          \<exists>g. G = target cu h \<and> h' = place cu h g \<and>
              res' = (Inr (target cu' k), place cu' k g))"

text \<open>
  The label format of section 3 of the specification,
  \<open>"<family_name>(<param1>, <param2>, ...)"\<close>: the family name is the name of the
  generator function, the parameters are its size and node arguments in the order of the
  signature, each rendered as given (\<open>str_spec\<close> renders the original value of a node
  specification, not the resolved sequence) and joined by \<open>", "\<close>. \<open>create_using\<close> and
  \<open>periodic\<close> are not rendered.
\<close>

fun family_name :: "generator \<Rightarrow> string" where
  "family_name (Full_rary_tree r n) = ''full_rary_tree''"
| "family_name (Balanced_tree r ht) = ''balanced_tree''"
| "family_name (Barbell_graph m1 m2) = ''barbell_graph''"
| "family_name (Complete_graph n) = ''complete_graph''"
| "family_name (Circular_ladder_graph n) = ''circular_ladder_graph''"
| "family_name (Circulant_graph n offsets) = ''circulant_graph''"
| "family_name (Cycle_graph n) = ''cycle_graph''"
| "family_name (Dorogovtsev_goltsev_mendes_graph n) = ''dorogovtsev_goltsev_mendes_graph''"
| "family_name (Empty_graph n) = ''empty_graph''"
| "family_name (Grid_2d_graph m n periodic) = ''grid_2d_graph''"
| "family_name (Grid_graph dim periodic) = ''grid_graph''"
| "family_name (Hypercube_graph n) = ''hypercube_graph''"
| "family_name (Ladder_graph n) = ''ladder_graph''"
| "family_name (Lollipop_graph m n) = ''lollipop_graph''"
| "family_name Null_graph = ''null_graph''"
| "family_name (Path_graph n) = ''path_graph''"
| "family_name (Star_graph n) = ''star_graph''"
| "family_name Trivial_graph = ''trivial_graph''"
| "family_name (Turan_graph n r) = ''turan_graph''"
| "family_name (Wheel_graph n) = ''wheel_graph''"
| "family_name (Complete_multipartite_graph block_sizes) = ''complete_multipartite_graph''"

fun given_params :: "generator \<Rightarrow> string list" where
  "given_params (Full_rary_tree r n) = [str_int r, str_int n]"
| "given_params (Balanced_tree r ht) = [str_int r, str_int ht]"
| "given_params (Barbell_graph m1 m2) = [str_int m1, str_int m2]"
| "given_params (Complete_graph n) = [str_spec n]"
| "given_params (Circular_ladder_graph n) = [str_int n]"
| "given_params (Circulant_graph n offsets) = [str_int n, repr_list (map str_int offsets)]"
| "given_params (Cycle_graph n) = [str_spec n]"
| "given_params (Dorogovtsev_goltsev_mendes_graph n) = [str_int n]"
| "given_params (Empty_graph n) = [str_spec n]"
| "given_params (Grid_2d_graph m n periodic) = [str_spec m, str_spec n]"
| "given_params (Grid_graph dim periodic) = [repr_list (map str_spec dim)]"
| "given_params (Hypercube_graph n) = [str_int n]"
| "given_params (Ladder_graph n) = [str_int n]"
| "given_params (Lollipop_graph m n) = [str_spec m, str_spec n]"
| "given_params Null_graph = []"
| "given_params (Path_graph n) = [str_spec n]"
| "given_params (Star_graph n) = [str_spec n]"
| "given_params Trivial_graph = []"
| "given_params (Turan_graph n r) = [str_int n, str_int r]"
| "given_params (Wheel_graph n) = [str_spec n]"
| "given_params (Complete_multipartite_graph block_sizes) = map str_spec block_sizes"

definition format_label :: "generator \<Rightarrow> string" where
  "format_label g = family_name g @ ''('' @ join_comma (given_params g) @ '')''"

text \<open>The generators whose assignments to \<open>G.name\<close> in the source produce that format:
  all but \<open>ladder_graph\<close> and \<open>hypercube_graph\<close> (an underscore before the parenthesis),
  \<open>dorogovtsev_goltsev_mendes_graph\<close> (a fixed title), \<open>complete_multipartite_graph\<close>
  (family name misspelt), \<open>barbell_graph\<close> and \<open>turan_graph\<close> (no blank after the comma),
  \<open>full_rary_tree\<close> and \<open>balanced_tree\<close> (no assignment: the name of \<open>empty_graph\<close>
  stays) and \<open>grid_2d_graph\<close> with \<open>periodic\<close> set (the resolved pairs are rendered).\<close>

fun on_format :: "generator \<Rightarrow> bool" where
  "on_format (Full_rary_tree r n) = False"
| "on_format (Balanced_tree r ht) = False"
| "on_format (Barbell_graph m1 m2) = False"
| "on_format (Dorogovtsev_goltsev_mendes_graph n) = False"
| "on_format (Grid_2d_graph m n periodic) = (\<not> periodic)"
| "on_format (Hypercube_graph n) = False"
| "on_format (Ladder_graph n) = False"
| "on_format (Turan_graph n r) = False"
| "on_format (Complete_multipartite_graph block_sizes) = False"
| "on_format g = True"


section \<open>Properties\<close>

subsection \<open>The store\<close>

lemma mutate_list_update: "G < length h \<Longrightarrow> mutate G f h = h[G := f (h ! G)]"
  by (induction G f h rule: mutate.induct) (auto split: nat.splits)

lemma mutate_out_of_range: "length h \<le> G \<Longrightarrow> mutate G f h = h"
  by (induction G f h rule: mutate.induct) (auto split: nat.splits)

lemma length_mutate [simp]: "length (mutate G f h) = length h"
  by (induction G f h rule: mutate.induct) (auto split: nat.splits)

lemma mutate_mutate: "mutate G f (mutate G g h) = mutate G (\<lambda>x. f (g x)) h"
  by (induction G g h rule: mutate.induct) (auto split: nat.splits)

lemma mutate_place [simp]:
  "valid_cu cu h \<Longrightarrow> mutate (target cu h) f (place cu h g) = place cu h (f g)"
  by (cases cu) (simp_all add: valid_cu_def target_def place_def mutate_list_update)

lemma place_nth_target [simp]: "valid_cu cu h \<Longrightarrow> place cu h g ! target cu h = g"
  by (cases cu) (simp_all add: valid_cu_def target_def place_def)

lemma target_less_place [simp]: "valid_cu cu h \<Longrightarrow> target cu h < length (place cu h g)"
  by (cases cu) (simp_all add: valid_cu_def target_def place_def)

lemma foldl_mutate_place:
  "valid_cu cu h \<Longrightarrow>
   foldl (\<lambda>h' x. mutate (target cu h) (F x) h') (place cu h g) xs =
   place cu h (foldl (\<lambda>g x. F x g) g xs)"
  by (induction xs arbitrary: g) simp_all

lemma foldl2_mutate_place:
  "valid_cu cu h \<Longrightarrow>
   foldl (\<lambda>h' i. foldl (\<lambda>h' j. mutate (target cu h) (F i j) h') h' ys) (place cu h g) xs =
   place cu h (foldl (\<lambda>g i. foldl (\<lambda>g j. F i j g) g ys) g xs)"
  by (induction xs arbitrary: g) (simp_all add: foldl_mutate_place)

lemma valid_cu_None [simp]: "valid_cu None h"
  by (simp add: valid_cu_def)

lemma base_None [simp]: "base None h = Graph"
  by (simp add: base_def)

lemma returns_place [simp]:
  "valid_cu cu h \<Longrightarrow> returns (Inr (target cu h), place cu h g) g' = (g = g')"
  by (simp add: returns_def)

lemma returns_Inl [simp]: "returns (Inl e, h) g = False"
  by (simp add: returns_def)

subsection \<open>The container operations\<close>

lemma set_name_sel [simp]:
  "is_directed (set_name s G) = is_directed G"
  "is_multigraph (set_name s G) = is_multigraph G"
  "name (set_name s G) = s"
  "nodes (set_name s G) = nodes G"
  "block (set_name s G) = block G"
  "edges (set_name s G) = edges G"
  by (simp_all add: set_name_def)

lemma add_node_sel [simp]:
  "is_directed (add_node v G) = is_directed G"
  "is_multigraph (add_node v G) = is_multigraph G"
  "name (add_node v G) = name G"
  "block (add_node v G) = block G"
  "edges (add_node v G) = edges G"
  by (simp_all add: add_node_def)

lemma add_nodes_from_sel [simp]:
  "is_directed (add_nodes_from vs G) = is_directed G"
  "is_multigraph (add_nodes_from vs G) = is_multigraph G"
  "name (add_nodes_from vs G) = name G"
  "block (add_nodes_from vs G) = block G"
  "edges (add_nodes_from vs G) = edges G"
  unfolding add_nodes_from_def by (induction vs arbitrary: G; simp)+

lemma add_edge_sel [simp]:
  "is_directed (add_edge u v G) = is_directed G"
  "is_multigraph (add_edge u v G) = is_multigraph G"
  "name (add_edge u v G) = name G"
  "block (add_edge u v G) = block G"
  by (simp_all add: add_edge_def Let_def)

lemma add_edges_from_sel [simp]:
  "is_directed (add_edges_from es G) = is_directed G"
  "is_multigraph (add_edges_from es G) = is_multigraph G"
  "name (add_edges_from es G) = name G"
  "block (add_edges_from es G) = block G"
  unfolding add_edges_from_def by (induction es arbitrary: G; simp)+

lemma Graph_sel [simp]:
  "is_directed Graph = False" "is_multigraph Graph = False" "name Graph = []"
  "nodes Graph = []" "block Graph = []" "edges Graph = []"
  by (simp_all add: Graph_def)

lemma clear_sel [simp]:
  "is_directed (clear G) = is_directed G" "is_multigraph (clear G) = is_multigraph G"
  "name (clear G) = []" "nodes (clear G) = []" "block (clear G) = []" "edges (clear G) = []"
  by (simp_all add: clear_def)

lemma base_sel [simp]:
  "name (base cu h) = []" "nodes (base cu h) = []" "block (base cu h) = []"
  "edges (base cu h) = []"
  by (cases cu; simp add: base_def)+

subsection \<open>Nodes of the container\<close>

lemma set_nodes_add_node [simp]: "set (nodes (add_node v G)) = insert v (set (nodes G))"
  by (auto simp: add_node_def)

lemma distinct_nodes_add_node [simp]:
  "distinct (nodes (add_node v G)) = distinct (nodes G)"
  by (auto simp: add_node_def)

lemma nodes_add_node_mem: "v \<in> set (nodes G) \<Longrightarrow> nodes (add_node v G) = nodes G"
  by (simp add: add_node_def)

lemma set_nodes_add_nodes_from [simp]:
  "set (nodes (add_nodes_from vs G)) = set (nodes G) \<union> set vs"
  unfolding add_nodes_from_def by (induction vs arbitrary: G) auto

lemma distinct_nodes_add_nodes_from [simp]:
  "distinct (nodes (add_nodes_from vs G)) = distinct (nodes G)"
  unfolding add_nodes_from_def by (induction vs arbitrary: G) auto

lemma nodes_add_nodes_from_fresh:
  "distinct vs \<Longrightarrow> set vs \<inter> set (nodes G) = {} \<Longrightarrow>
   nodes (add_nodes_from vs G) = nodes G @ vs"
  unfolding add_nodes_from_def
proof (induction vs arbitrary: G)
  case Nil
  then show ?case by simp
next
  case (Cons v vs)
  have "nodes (add_node v G) = nodes G @ [v]"
    using Cons.prems by (simp add: add_node_def)
  moreover have "set vs \<inter> set (nodes (add_node v G)) = {}"
    using Cons.prems by auto
  ultimately show ?case using Cons.IH [of "add_node v G"] Cons.prems by simp
qed

lemma set_nodes_add_edge [simp]:
  "set (nodes (add_edge u v G)) = insert u (insert v (set (nodes G)))"
  by (auto simp: add_edge_def Let_def)

lemma distinct_nodes_add_edge [simp]:
  "distinct (nodes (add_edge u v G)) = distinct (nodes G)"
  by (auto simp: add_edge_def Let_def)

lemma nodes_add_edge_mem:
  "u \<in> set (nodes G) \<Longrightarrow> v \<in> set (nodes G) \<Longrightarrow> nodes (add_edge u v G) = nodes G"
  by (simp add: add_edge_def Let_def nodes_add_node_mem)

lemma set_nodes_add_edges_from [simp]:
  "set (nodes (add_edges_from es G)) = set (nodes G) \<union> fst ` set es \<union> snd ` set es"
  unfolding add_edges_from_def by (induction es arbitrary: G) auto

lemma distinct_nodes_add_edges_from [simp]:
  "distinct (nodes (add_edges_from es G)) = distinct (nodes G)"
  unfolding add_edges_from_def by (induction es arbitrary: G) auto

lemma nodes_add_edges_from_mem:
  "fst ` set es \<subseteq> set (nodes G) \<Longrightarrow> snd ` set es \<subseteq> set (nodes G) \<Longrightarrow>
   nodes (add_edges_from es G) = nodes G"
  unfolding add_edges_from_def
  by (induction es arbitrary: G) (simp_all add: nodes_add_edge_mem)

subsection \<open>Edges of the container\<close>

lemma has_edge_add_node [simp]: "has_edge (add_node v G) a b = has_edge G a b"
  by (simp add: has_edge_def)

lemma edges_add_edge:
  "edges (add_edge u v G) =
     (if \<not> is_multigraph G \<and> has_edge G u v then edges G else edges G @ [(u, v)])"
  by (simp add: add_edge_def Let_def)

lemma edges_add_edges_from_multi:
  "is_multigraph G \<Longrightarrow> edges (add_edges_from es G) = edges G @ es"
  unfolding add_edges_from_def
  by (induction es arbitrary: G) (simp_all add: edges_add_edge)

lemma distinct_edges_add_edge:
  "\<not> is_multigraph G \<Longrightarrow> distinct (edges G) \<Longrightarrow> distinct (edges (add_edge u v G))"
  by (auto simp: edges_add_edge has_edge_def)

lemma distinct_edges_add_edges_from:
  "\<not> is_multigraph G \<Longrightarrow> distinct (edges G) \<Longrightarrow> distinct (edges (add_edges_from es G))"
  unfolding add_edges_from_def
  by (induction es arbitrary: G) (simp_all add: distinct_edges_add_edge)

lemma set_edges_add_edges_from_directed:
  "is_directed G \<Longrightarrow> set (edges (add_edges_from es G)) = set (edges G) \<union> set es"
  unfolding add_edges_from_def
  by (induction es arbitrary: G) (auto simp: edges_add_edge has_edge_def split: if_splits)

lemma set_edges_add_edges_from_one_way:
  "one_way (set (edges G) \<union> set es) \<Longrightarrow>
   set (edges (add_edges_from es G)) = set (edges G) \<union> set es"
  unfolding add_edges_from_def
proof (induction es arbitrary: G)
  case Nil
  then show ?case by simp
next
  case (Cons e es)
  have "(snd e, fst e) \<notin> set (edges G)"
    using Cons.prems by (auto simp: one_way_def)
  then have eq: "set (edges (add_edge (fst e) (snd e) G)) = insert e (set (edges G))"
    by (auto simp: edges_add_edge has_edge_def)
  have "one_way (set (edges (add_edge (fst e) (snd e) G)) \<union> set es)"
    using Cons.prems by (simp add: eq)
  from Cons.IH [OF this] show ?case by (simp add: eq)
qed

lemma degree_card:
  "distinct (edges G) \<Longrightarrow>
   degree G v = card {e \<in> set (edges G). fst e = v} + card {e \<in> set (edges G). snd e = v}"
proof -
  assume d: "distinct (edges G)"
  have "{e \<in> set (edges G). fst e = v} = {e. fst e = v} \<inter> set (edges G)"
       "{e \<in> set (edges G). snd e = v} = {e. snd e = v} \<inter> set (edges G)" by auto
  then show ?thesis
    using distinct_length_filter [OF d, of "\<lambda>e. fst e = v"]
          distinct_length_filter [OF d, of "\<lambda>e. snd e = v"]
    by (simp add: degree_def)
qed

subsection \<open>The generators as one update of the output container\<close>

lemma empty_graph_place:
  "valid_cu cu h \<Longrightarrow>
   empty_graph n cu h =
     (target cu h,
      place cu h (add_nodes_from (snd (nodes_or_number n))
                   (set_name (''empty_graph('' @ str_spec n @ '')'') (base cu h))))"
  by (cases cu)
     (simp_all add: empty_graph_def new_Graph_def nodes_or_number_def valid_cu_def target_def
        base_def place_def mutate_list_update mutate_out_of_range Let_def)

lemma cycle_graph_place:
  "valid_cu cu h \<Longrightarrow> snd (nodes_or_number n) \<noteq> [] \<Longrightarrow>
   cycle_graph n cu h =
     (Inr (target cu h),
      place cu h
        (add_edge (last (snd (nodes_or_number n))) (hd (snd (nodes_or_number n)))
          (add_edges_from (pairwise_seq (snd (nodes_or_number n)))
            (set_name (''cycle_graph('' @ str_spec n @ '')'')
              (add_nodes_from (snd (nodes_or_number n))
                (set_name (''empty_graph('' @ str_spec (resolved n (snd (nodes_or_number n))) @ '')'')
                   (base cu h)))))))"
  by (simp add: cycle_graph_def empty_graph_place Let_def nodes_or_number_def resolved_def
           split: nodespec.splits)

lemma cycle_graph_empty:
  "snd (nodes_or_number n) = [] \<Longrightarrow> fst (cycle_graph n cu h) = Inl IndexError"
  by (simp add: cycle_graph_def Let_def nodes_or_number_def split: prod.splits)

lemma circulant_graph_place:
  "valid_cu cu h \<Longrightarrow>
   circulant_graph n offsets cu h =
     (target cu h,
      place cu h
        (foldl (\<lambda>g i. foldl (\<lambda>g j. add_edge (NInt i) (NInt ((i + j) mod n))
                                    (add_edge (NInt i) (NInt ((i - j) mod n)) g)) g offsets)
           (set_name (''circulant_graph('' @ str_int n @ '', ['' @
                       join_comma (map str_int offsets) @ ''])'')
              (add_nodes_from (map NInt [0..n - 1])
                 (set_name (''empty_graph('' @ str_int n @ '')'') (base cu h))))
           [0..n - 1]))"
  by (simp add: circulant_graph_def empty_graph_place nodes_or_number_def mutate_mutate
        foldl2_mutate_place)


subsection \<open>cycle\_graph on an empty node specification\<close>

text \<open>
  Claim C10. \<open>cycle_graph\<close> applied to a node specification that resolves to no node (the
  integer 0, an empty iterable) does not return a null graph: \<open>nodes[-1]\<close> on the empty
  sequence raises IndexError. For every node specification that resolves to at least one
  node, and every live (or absent) container, \<open>cycle_graph\<close> returns a graph.
\<close>

theorem cycle_graph_empty_raises:
  "(snd (nodes_or_number n) = [] \<longrightarrow> fst (cycle_graph n cu h) = Inl IndexError) \<and>
   fst (cycle_graph (Count 0) cu h) = Inl IndexError \<and>
   fst (cycle_graph (Nodes []) cu h) = Inl IndexError \<and>
   fst (cycle_graph (NodesT []) cu h) = Inl IndexError \<and>
   (valid_cu cu h \<and> snd (nodes_or_number n) \<noteq> [] \<longrightarrow> (\<exists>g. returns (cycle_graph n cu h) g))"
proof (intro conjI impI)
  show "fst (cycle_graph (Count 0) cu h) = Inl IndexError"
    by (rule cycle_graph_empty) (simp add: nodes_or_number_def)
  show "fst (cycle_graph (Nodes []) cu h) = Inl IndexError"
    by (rule cycle_graph_empty) (simp add: nodes_or_number_def)
  show "fst (cycle_graph (NodesT []) cu h) = Inl IndexError"
    by (rule cycle_graph_empty) (simp add: nodes_or_number_def)
next
  assume "snd (nodes_or_number n) = []"
  then show "fst (cycle_graph n cu h) = Inl IndexError" by (rule cycle_graph_empty)
next
  assume "valid_cu cu h \<and> snd (nodes_or_number n) \<noteq> []"
  then show "\<exists>g. returns (cycle_graph n cu h) g"
    by (simp add: cycle_graph_place)
qed

theorem cycle_graph_empty_raises_witness:
  "fst (cycle_graph (Count 0) None []) = Inl IndexError \<and>
   (\<exists>g. returns (cycle_graph (Count 3) None []) g)"
  using cycle_graph_empty_raises [of "Count 0" None "[]"]
        cycle_graph_empty_raises [of "Count 3" None "[]"]
  by (simp add: nodes_or_number_def)

subsection \<open>circulant\_graph(10, [1]) and cycle\_graph(10)\<close>

text \<open>
  Claim C7. \<open>circulant_graph(10, [1])\<close> returns a graph whose edge set, as a set of
  unordered pairs, is that of \<open>cycle_graph(10)\<close>; both calls return, whatever the store
  held before.
\<close>

theorem circulant_10_1_edges_eq_cycle_10:
  "\<exists>g1 g2. returns (returning (circulant_graph 10 [1] None h)) g1 \<and>
           returns (cycle_graph (Count 10) None h) g2 \<and>
           edge_set g1 = edge_set g2"
proof -
  have ne: "snd (nodes_or_number (Count 10)) \<noteq> []"
    by (simp add: nodes_or_number_def)
  define g1 where "g1 = snd (circulant_graph 10 [1] None []) ! 0"
  define g2 where "g2 = (case cycle_graph (Count 10) None [] of (r, h) \<Rightarrow> h ! 0)"
  have r1: "returns (returning (circulant_graph 10 [1] None h)) g1"
    unfolding g1_def
    by (simp only: circulant_graph_place valid_cu_None returning_def fst_conv snd_conv
          returns_place) (simp add: place_def)
  have r2: "returns (cycle_graph (Count 10) None h) g2"
    unfolding g2_def
    by (simp only: cycle_graph_place [OF valid_cu_None ne] returns_place valid_cu_None
          prod.case) (simp add: place_def)
  have "edge_set g1 = edge_set g2"
    unfolding g1_def g2_def by code_simp
  with r1 r2 show ?thesis by blast
qed


subsection \<open>complete\_graph\<close>

lemma add_edges_from_Nil [simp]: "add_edges_from [] G = G"
  by (simp add: add_edges_from_def)

lemma add_nodes_from_Nil [simp]: "add_nodes_from [] G = G"
  by (simp add: add_nodes_from_def)

lemma is_directed_base: "is_directed (base cu h) = (case cu of None \<Rightarrow> False | Some r \<Rightarrow> is_directed (h ! r))"
  by (cases cu) (simp_all add: base_def)

lemma is_multigraph_base: "is_multigraph (base cu h) = (case cu of None \<Rightarrow> False | Some r \<Rightarrow> is_multigraph (h ! r))"
  by (cases cu) (simp_all add: base_def)

lemma length_combinations2_twice: "2 * length (combinations2 xs) = length xs * (length xs - 1)"
proof (induction xs)
  case Nil
  then show ?case by simp
next
  case (Cons x xs)
  show ?case
  proof (cases "length xs")
    case 0
    then show ?thesis by simp
  next
    case (Suc k)
    with Cons show ?thesis by (simp add: algebra_simps)
  qed
qed

lemma length_combinations2: "length (combinations2 xs) = length xs * (length xs - 1) div 2"
  using length_combinations2_twice [of xs] by linarith

lemma set_combinations2_subset: "set (combinations2 xs) \<subseteq> set xs \<times> set xs"
  by (induction xs) auto

lemma distinct_combinations2: "distinct xs \<Longrightarrow> distinct (combinations2 xs)"
proof (induction xs)
  case Nil
  then show ?case by simp
next
  case (Cons x xs)
  have "set (map (Pair x) xs) \<inter> set (combinations2 xs) = {}"
    using set_combinations2_subset [of xs] Cons.prems by auto
  moreover have "distinct (map (Pair x) xs)"
    using Cons.prems by (simp add: distinct_map inj_on_def)
  ultimately show ?case using Cons by simp
qed

lemma combinations2_no_flip:
  "distinct xs \<Longrightarrow> (a, b) \<in> set (combinations2 xs) \<Longrightarrow> (b, a) \<notin> set (combinations2 xs)"
proof (induction xs)
  case Nil
  then show ?case by simp
next
  case (Cons x xs)
  have sub: "set (combinations2 xs) \<subseteq> set xs \<times> set xs" by (rule set_combinations2_subset)
  have x: "x \<notin> set xs" using Cons.prems by simp
  show ?case
  proof (cases "(a, b) \<in> set (combinations2 xs)")
    case True
    then have "a \<noteq> x" "b \<noteq> x" using sub x by auto
    moreover have "(b, a) \<notin> set (combinations2 xs)" using Cons True by simp
    ultimately show ?thesis by auto
  next
    case False
    then have "a = x" "b \<in> set xs" using Cons.prems(2) by auto
    then show ?thesis using sub x by auto
  qed
qed

lemma permutations2_short [simp]: "permutations2 [] = []" "permutations2 [x] = []"
  by (simp_all add: permutations2_def)

lemma length_filter_neq_upt: "i < n \<Longrightarrow> length (filter (\<lambda>j. j \<noteq> i) [0..<n]) = n - 1"
proof -
  assume "i < n"
  then have "{j. j \<noteq> i} \<inter> {0..<n} = {0..<n} - {i}" by auto
  with \<open>i < n\<close> show ?thesis
    using distinct_length_filter [of "[0..<n]" "\<lambda>j. j \<noteq> i"] by simp
qed

lemma length_permutations2: "length (permutations2 xs) = length xs * (length xs - 1)"
proof -
  have "map (\<lambda>i. length (filter (\<lambda>j. j \<noteq> i) [0..<length xs])) [0..<length xs]
        = map (\<lambda>i. length xs - 1) [0..<length xs]"
    by (rule map_cong) (simp_all add: length_filter_neq_upt)
  then have "sum_list (map (\<lambda>i. length (filter (\<lambda>j. j \<noteq> i) [0..<length xs])) [0..<length xs])
        = sum_list (map (\<lambda>i. length xs - 1) [0..<length xs])"
    by (rule arg_cong)
  also have "\<dots> = length xs * (length xs - 1)"
    by (simp add: sum_list_triv)
  finally show ?thesis
    by (simp add: permutations2_def length_concat comp_def)
qed

lemma set_permutations2:
  "distinct xs \<Longrightarrow> set (permutations2 xs) = set xs \<times> set xs - Id"
proof -
  assume d: "distinct xs"
  have "set (permutations2 xs) = {(xs ! i, xs ! j) | i j. i < length xs \<and> j < length xs \<and> j \<noteq> i}"
    by (auto simp: permutations2_def) blast
  also have "\<dots> = set xs \<times> set xs - Id"
    using d by (auto simp: in_set_conv_nth nth_eq_iff_index_eq) blast
  finally show ?thesis .
qed

lemma card_set_permutations2:
  "distinct xs \<Longrightarrow> card (set (permutations2 xs)) = length xs * (length xs - 1)"
proof -
  assume d: "distinct xs"
  have "set xs \<times> set xs - Id = set xs \<times> set xs - (\<lambda>a. (a, a)) ` set xs" by auto
  moreover have "card (set xs \<times> set xs - (\<lambda>a. (a, a)) ` set xs)
                 = card (set xs \<times> set xs) - card ((\<lambda>a. (a, a)) ` set xs)"
    by (rule card_Diff_subset) auto
  moreover have "card ((\<lambda>a. (a, a)) ` set xs) = card (set xs)"
    by (rule card_image) (simp add: inj_on_def)
  ultimately show ?thesis
    using d by (simp add: set_permutations2 distinct_card card_cartesian_product diff_mult_distrib2)
qed

lemma complete_graph_place:
  "valid_cu cu h \<Longrightarrow>
   complete_graph n cu h =
     (target cu h,
      place cu h
        (add_edges_from
           (if is_directed (base cu h) then permutations2 (snd (nodes_or_number n))
            else combinations2 (snd (nodes_or_number n)))
           (set_name (''complete_graph('' @ str_spec n @ '')'')
              (add_nodes_from (snd (nodes_or_number n))
                 (set_name (''empty_graph('' @ str_spec n @ '')'') (base cu h))))))"
proof -
  assume v: "valid_cu cu h"
  show ?thesis
  proof (cases "length (snd (nodes_or_number n)) > 1")
    case True
    with v show ?thesis
      by (simp add: complete_graph_def empty_graph_place Let_def nodes_or_number_def)
  next
    case False
    then consider "snd (nodes_or_number n) = []" | x where "snd (nodes_or_number n) = [x]"
      by (cases "snd (nodes_or_number n)") (auto simp: Suc_le_eq)
    then show ?thesis
    proof cases
      case 1
      with v show ?thesis
        by (simp add: complete_graph_def empty_graph_place Let_def nodes_or_number_def)
    next
      case 2
      with v show ?thesis
        by (simp add: complete_graph_def empty_graph_place Let_def nodes_or_number_def)
    qed
  qed
qed

text \<open>
  Claim C8. For every integer \<open>n \<ge> 0\<close> and every container (absent, or a live object of
  any variant), \<open>complete_graph(n)\<close> returns a graph of the container's variant with exactly
  \<open>n\<close> nodes, and with \<open>n*(n-1)/2\<close> edges when it is undirected, \<open>n*(n-1)\<close> when it is
  directed.
\<close>

theorem complete_graph_counts:
  "0 \<le> n \<Longrightarrow> valid_cu cu h \<Longrightarrow>
   \<exists>g. returns (returning (complete_graph (Count n) cu h)) g \<and>
       is_directed g = (case cu of None \<Rightarrow> False | Some r \<Rightarrow> is_directed (h ! r)) \<and>
       is_multigraph g = (case cu of None \<Rightarrow> False | Some r \<Rightarrow> is_multigraph (h ! r)) \<and>
       number_of_nodes g = nat n \<and>
       int (number_of_edges g) = (if is_directed g then n * (n - 1) else n * (n - 1) div 2)"
proof -
  assume n: "0 \<le> n" and v: "valid_cu cu h"
  define vs where "vs = map NInt [0..n - 1]"
  define es where "es = (if is_directed (base cu h) then permutations2 vs else combinations2 vs)"
  define g0 where "g0 = set_name (''complete_graph('' @ str_int n @ '')'')
              (add_nodes_from vs (set_name (''empty_graph('' @ str_int n @ '')'') (base cu h)))"
  define g where "g = add_edges_from es g0"
  have dvs: "distinct vs" by (simp add: vs_def distinct_map inj_on_def)
  have lvs: "length vs = nat n" using n by (simp add: vs_def)
  have r: "returns (returning (complete_graph (Count n) cu h)) g"
    using v by (simp add: complete_graph_place returning_def nodes_or_number_def g_def g0_def
        es_def vs_def)
  have nodes0: "nodes g0 = vs"
    using nodes_add_nodes_from_fresh [OF dvs, of "set_name (''empty_graph('' @ str_int n @ '')'') (base cu h)"]
    by (simp add: g0_def)
  have edges0: "edges g0 = []" by (simp add: g0_def)
  have sub: "set es \<subseteq> set vs \<times> set vs"
    using set_combinations2_subset [of vs] dvs by (auto simp: es_def set_permutations2)
  have "nodes g = nodes g0"
    unfolding g_def using sub by (intro nodes_add_edges_from_mem) (auto simp: nodes0)
  then have nn: "number_of_nodes g = nat n" by (simp add: number_of_nodes_def nodes0 lvs)
  have dir: "is_directed g = is_directed (base cu h)" by (simp add: g_def g0_def)
  have mul: "is_multigraph g = is_multigraph (base cu h)" by (simp add: g_def g0_def)
  have len: "length (edges g) = (if is_directed g then nat n * (nat n - 1) else nat n * (nat n - 1) div 2)"
  proof (cases "is_multigraph g0")
    case True
    then have "edges g = es" by (simp add: g_def edges_add_edges_from_multi edges0)
    then show ?thesis
      by (simp add: es_def dir length_permutations2 length_combinations2 lvs)
  next
    case False
    then have dist: "distinct (edges g)"
      unfolding g_def by (intro distinct_edges_add_edges_from) (simp_all add: edges0)
    show ?thesis
    proof (cases "is_directed g")
      case True
      then have "set (edges g) = set (permutations2 vs)"
        using set_edges_add_edges_from_directed [of g0 es]
        by (simp add: g_def g0_def es_def)
      then have "card (set (edges g)) = nat n * (nat n - 1)"
        using dvs by (simp add: card_set_permutations2 lvs)
      with dist True show ?thesis by (simp add: distinct_card)
    next
      case False
      then have es: "es = combinations2 vs" by (simp add: es_def dir)
      have "one_way (set (edges g0) \<union> set es)"
        using combinations2_no_flip [OF dvs] by (auto simp: one_way_def edges0 es)
      then have "set (edges g) = set (combinations2 vs)"
        using set_edges_add_edges_from_one_way [of g0 es] by (simp add: g_def edges0 es)
      then have "card (set (edges g)) = length (combinations2 vs)"
        using distinct_combinations2 [OF dvs] by (simp add: distinct_card)
      with dist False show ?thesis
        by (simp add: distinct_card lvs length_combinations2)
    qed
  qed
  obtain k where k: "n = int k" using n by (rule nonneg_int_cases)
  have "int (k * (k - 1)) = int k * (int k - 1)"
    by (cases k) (simp_all add: algebra_simps)
  then have "int (nat n * (nat n - 1)) = n * (n - 1)"
    by (simp add: k)
  then have ne: "int (number_of_edges g) = (if is_directed g then n * (n - 1) else n * (n - 1) div 2)"
    using len by (simp add: number_of_edges_def zdiv_int)
  show ?thesis
    using r nn ne dir mul unfolding is_directed_base is_multigraph_base by blast
qed

theorem complete_graph_counts_witness:
  "\<exists>g. returns (returning (complete_graph (Count 9) None [])) g \<and>
       number_of_nodes g = 9 \<and> number_of_edges g = 36"
  using complete_graph_counts [of 9 None "[]"] by auto


subsection \<open>star\_graph\<close>

lemma star_graph_place:
  "valid_cu cu h \<Longrightarrow>
   star_graph n cu h =
     (let nodes = (case n of Count k \<Rightarrow> map NInt [0..k - 1] @ [NInt k] | Nodes xs \<Rightarrow> xs
                   | NodesT xs \<Rightarrow> xs);
          nodes_spec = (case n of Count k \<Rightarrow> Nodes nodes | _ \<Rightarrow> NodesT nodes);
          G0 = add_nodes_from nodes
                 (set_name (''empty_graph('' @ str_spec nodes_spec @ '')'') (base cu h))
      in if nodes = [] then (Inl IndexError, h)
         else if is_directed (base cu h)
         then (Inl (NetworkXError ''Directed Graph not supported''), place cu h G0)
         else (Inr (target cu h),
               place cu h
                 (set_name (''star_graph('' @ str_spec n @ '')'')
                    (add_edges_from (map (\<lambda>v. (hd nodes, v)) (tl nodes)) G0))))"
  by (cases n)
     (simp_all add: star_graph_def empty_graph_place Let_def nodes_or_number_def)





subsection \<open>barbell\_graph\<close>

lemma set_pairwise_seq_subset: "set (pairwise_seq xs) \<subseteq> set xs \<times> set xs"
  unfolding pairwise_seq_def
  by (cases xs) (auto dest: set_zip_leftD set_zip_rightD)

lemma barbell_graph_place:
  "valid_cu cu h \<Longrightarrow> \<not> is_directed (base cu h) \<Longrightarrow> 2 \<le> m1 \<Longrightarrow> 0 \<le> m2 \<Longrightarrow>
   barbell_graph m1 m2 cu h =
     (Inr (target cu h),
      place cu h
        ((if m2 > 0 then add_edge (NInt (m1 + m2 - 1)) (NInt (m1 + m2)) else (\<lambda>g. g))
          (add_edge (NInt (m1 - 1)) (NInt m1)
            (add_edges_from
               (concat (map (\<lambda>u. map (\<lambda>v. (NInt u, NInt v)) [u + 1..2 * m1 + m2 - 1])
                            [m1 + m2..2 * m1 + m2 - 1]))
               ((if m2 > 1 then add_edges_from (pairwise_seq (map NInt [m1..m1 + m2 - 1]))
                 else (\<lambda>g. g))
                 (add_nodes_from (map NInt [m1..m1 + m2 - 1 - 1])
                   (set_name (''barbell_graph('' @ str_int m1 @ '','' @ str_int m2 @ '')'')
                     (add_edges_from (combinations2 (map NInt [0..m1 - 1]))
                       (set_name (''complete_graph('' @ str_int m1 @ '')'')
                         (add_nodes_from (map NInt [0..m1 - 1])
                           (set_name (''empty_graph('' @ str_int m1 @ '')'')
                              (base cu h))))))))))))"
  by (cases cu)
     (simp_all add: barbell_graph_def complete_graph_place Let_def nodes_or_number_def
        is_directed_base)

lemma bell_edges_nodes:
  "a < b \<Longrightarrow>
   fst ` set (concat (map (\<lambda>u. map (\<lambda>v. (NInt u, NInt v)) [u + 1..b]) [a..b])) \<union>
   snd ` set (concat (map (\<lambda>u. map (\<lambda>v. (NInt u, NInt v)) [u + 1..b]) [a..b])) =
   NInt ` {a..b}"
proof -
  assume ab: "a < b"
  have s: "set (concat (map (\<lambda>u. map (\<lambda>v. (NInt u, NInt v)) [u + 1..b]) [a..b])) =
        {(NInt u, NInt v) | u v. a \<le> u \<and> u < v \<and> v \<le> b}"
    by (auto simp: image_iff)
  show ?thesis
  proof (intro equalityI subsetI)
    fix x assume "x \<in> NInt ` {a..b}"
    then obtain i where i: "x = NInt i" "a \<le> i" "i \<le> b" by auto
    show "x \<in> fst ` set (concat (map (\<lambda>u. map (\<lambda>v. (NInt u, NInt v)) [u + 1..b]) [a..b])) \<union>
               snd ` set (concat (map (\<lambda>u. map (\<lambda>v. (NInt u, NInt v)) [u + 1..b]) [a..b]))"
    proof (cases "i < b")
      case True
      then have "(NInt i, NInt b) \<in> {(NInt u, NInt v) | u v. a \<le> u \<and> u < v \<and> v \<le> b}"
        using i by blast
      then show ?thesis unfolding s i(1) by force
    next
      case False
      then have "(NInt a, NInt i) \<in> {(NInt u, NInt v) | u v. a \<le> u \<and> u < v \<and> v \<le> b}"
        using i ab by force
      then show ?thesis unfolding s i(1) by force
    qed
  next
    fix x assume "x \<in> fst ` set (concat (map (\<lambda>u. map (\<lambda>v. (NInt u, NInt v)) [u + 1..b]) [a..b])) \<union>
               snd ` set (concat (map (\<lambda>u. map (\<lambda>v. (NInt u, NInt v)) [u + 1..b]) [a..b]))"
    then show "x \<in> NInt ` {a..b}" unfolding s by force
  qed
qed

lemma barbell_graph_node_set:
  assumes "valid_cu cu h" "\<not> is_directed (base cu h)" "2 \<le> m1" "0 \<le> m2"
  shows "\<exists>g. returns (barbell_graph m1 m2 cu h) g \<and>
             set (nodes g) = NInt ` {0..2 * m1 + m2 - 1} \<and> distinct (nodes g)"
proof -
  define g1 where "g1 = set_name (''barbell_graph('' @ str_int m1 @ '','' @ str_int m2 @ '')'')
                     (add_edges_from (combinations2 (map NInt [0..m1 - 1]))
                       (set_name (''complete_graph('' @ str_int m1 @ '')'')
                         (add_nodes_from (map NInt [0..m1 - 1])
                           (set_name (''empty_graph('' @ str_int m1 @ '')'')
                              (base cu h)))))"
  define g2 where "g2 = add_nodes_from (map NInt [m1..m1 + m2 - 1 - 1]) g1"
  define g3 where "g3 = (if m2 > 1 then add_edges_from (pairwise_seq (map NInt [m1..m1 + m2 - 1]))
                 else (\<lambda>g. g)) g2"
  define g4 where "g4 = add_edges_from
               (concat (map (\<lambda>u. map (\<lambda>v. (NInt u, NInt v)) [u + 1..2 * m1 + m2 - 1])
                            [m1 + m2..2 * m1 + m2 - 1])) g3"
  define g5 where "g5 = add_edge (NInt (m1 - 1)) (NInt m1) g4"
  define g6 where "g6 = (if m2 > 0 then add_edge (NInt (m1 + m2 - 1)) (NInt (m1 + m2))
                         else (\<lambda>g. g)) g5"
  have r: "returns (barbell_graph m1 m2 cu h) g6"
    unfolding barbell_graph_place [OF assms] g6_def g5_def g4_def g3_def g2_def g1_def
    by (simp only: returns_place [OF assms(1)])
  have comb: "fst ` set (combinations2 (map NInt [0..m1 - 1])) \<subseteq> NInt ` {0..m1 - 1}"
             "snd ` set (combinations2 (map NInt [0..m1 - 1])) \<subseteq> NInt ` {0..m1 - 1}"
    using set_combinations2_subset [of "map NInt [0..m1 - 1]"] by auto
  have n1: "set (nodes g1) = NInt ` {0..m1 - 1}"
    using comb by (auto simp: g1_def)
  have n2: "set (nodes g2) = NInt ` {0..m1 - 1} \<union> NInt ` {m1..m1 + m2 - 2}"
    by (simp add: g2_def n1)
  have path: "fst ` set (pairwise_seq (map NInt [m1..m1 + m2 - 1])) \<subseteq> NInt ` {m1..m1 + m2 - 1}"
             "snd ` set (pairwise_seq (map NInt [m1..m1 + m2 - 1])) \<subseteq> NInt ` {m1..m1 + m2 - 1}"
    using set_pairwise_seq_subset [of "map NInt [m1..m1 + m2 - 1]"] by auto
  have n3a: "set (nodes g2) \<subseteq> set (nodes g3)"
    by (auto simp: g3_def)
  have n3b: "set (nodes g3) \<subseteq> set (nodes g2) \<union> NInt ` {m1..m1 + m2 - 1}"
    using path by (auto simp: g3_def)
  have bell: "fst ` set (concat (map (\<lambda>u. map (\<lambda>v. (NInt u, NInt v)) [u + 1..2 * m1 + m2 - 1])
                            [m1 + m2..2 * m1 + m2 - 1])) \<union>
        snd ` set (concat (map (\<lambda>u. map (\<lambda>v. (NInt u, NInt v)) [u + 1..2 * m1 + m2 - 1])
                            [m1 + m2..2 * m1 + m2 - 1])) = NInt ` {m1 + m2..2 * m1 + m2 - 1}"
    using assms by (intro bell_edges_nodes) simp
  have n4: "set (nodes g4) = set (nodes g3) \<union> NInt ` {m1 + m2..2 * m1 + m2 - 1}"
    unfolding g4_def set_nodes_add_edges_from Un_assoc bell ..
  have n5: "set (nodes g5) = insert (NInt (m1 - 1)) (insert (NInt m1) (set (nodes g4)))"
    by (simp add: g5_def)
  have n6: "set (nodes g6) = (if m2 > 0 then {NInt (m1 + m2 - 1), NInt (m1 + m2)} else {})
              \<union> set (nodes g5)"
    by (simp add: g6_def)
  have sub: "set (nodes g6) \<subseteq> NInt ` {0..2 * m1 + m2 - 1}"
  proof -
    have "set (nodes g3) \<subseteq> NInt ` {0..2 * m1 + m2 - 1}"
      using n3b assms(3,4) unfolding n2 by auto
    moreover have "NInt ` {m1 + m2..2 * m1 + m2 - 1} \<subseteq> NInt ` {0..2 * m1 + m2 - 1}"
      using assms(3,4) by auto
    moreover have "NInt (m1 - 1) \<in> NInt ` {0..2 * m1 + m2 - 1}"
         "NInt m1 \<in> NInt ` {0..2 * m1 + m2 - 1}"
      using assms(3,4) by auto
    moreover have "m2 > 0 \<Longrightarrow> NInt (m1 + m2 - 1) \<in> NInt ` {0..2 * m1 + m2 - 1}"
         "m2 > 0 \<Longrightarrow> NInt (m1 + m2) \<in> NInt ` {0..2 * m1 + m2 - 1}"
      using assms(3,4) by auto
    ultimately show ?thesis unfolding n6 n5 n4 by auto
  qed
  have sup: "NInt ` {0..2 * m1 + m2 - 1} \<subseteq> set (nodes g6)"
  proof
    fix x assume "x \<in> NInt ` {0..2 * m1 + m2 - 1}"
    then obtain i where i: "x = NInt i" "0 \<le> i" "i \<le> 2 * m1 + m2 - 1" by auto
    consider "i \<le> m1 + m2 - 2" | "i = m1 + m2 - 1" | "m1 + m2 \<le> i" by linarith
    then show "x \<in> set (nodes g6)"
    proof cases
      case 1
      then have "i \<in> {0..m1 - 1} \<or> i \<in> {m1..m1 + m2 - 2}" using i by auto
      then have "x \<in> set (nodes g2)" unfolding n2 i(1) by blast
      then show ?thesis using n3a unfolding n6 n5 n4 by auto
    next
      case 2
      show ?thesis
      proof (cases "m2 > 0")
        case True
        then show ?thesis unfolding n6 i(1) 2 by simp
      next
        case False
        then have "i = m1 - 1" using 2 assms(4) by simp
        then show ?thesis unfolding n6 n5 i(1) by simp
      qed
    next
      case 3
      then have "x \<in> NInt ` {m1 + m2..2 * m1 + m2 - 1}" using i by auto
      then show ?thesis unfolding n6 n5 n4 by auto
    qed
  qed
  have "distinct (nodes (base cu h))" by simp
  then have "distinct (nodes g6)"
    by (simp add: g6_def g5_def g4_def g3_def g2_def g1_def)
  with r sub sup show ?thesis by blast
qed

text \<open>
  Claim C5. For all integers \<open>m1 \<ge> 2\<close> and \<open>m2 \<ge> 0\<close> and a container that is absent or
  undirected (\<open>base cu h\<close> is the container as \<open>empty_graph\<close> starts from it),
  \<open>barbell_graph(m1, m2)\<close> returns a graph whose nodes are exactly \<open>0, ..., 2*m1+m2-1\<close>, each
  once. \<open>barbell_graph(3, 0)\<close> has 6 nodes and 7 edges: the triangles on \<open>0,1,2\<close> and on
  \<open>3,4,5\<close> and the bridge \<open>(2, 3)\<close>.
\<close>

theorem barbell_graph_nodes:
  "(valid_cu cu h \<and> \<not> is_directed (base cu h) \<and> 2 \<le> m1 \<and> 0 \<le> m2 \<longrightarrow>
      (\<exists>g. returns (barbell_graph m1 m2 cu h) g \<and>
           set (nodes g) = NInt ` {0..2 * m1 + m2 - 1} \<and> distinct (nodes g))) \<and>
   (\<exists>g. returns (barbell_graph 3 0 None h) g \<and>
        number_of_nodes g = 6 \<and> number_of_edges g = 7 \<and>
        edges g = [(NInt 0, NInt 1), (NInt 0, NInt 2), (NInt 1, NInt 2),
                   (NInt 3, NInt 4), (NInt 3, NInt 5), (NInt 4, NInt 5),
                   (NInt 2, NInt 3)])"
proof (intro conjI impI)
  assume "valid_cu cu h \<and> \<not> is_directed (base cu h) \<and> 2 \<le> m1 \<and> 0 \<le> m2"
  then show "\<exists>g. returns (barbell_graph m1 m2 cu h) g \<and>
           set (nodes g) = NInt ` {0..2 * m1 + m2 - 1} \<and> distinct (nodes g)"
    using barbell_graph_node_set by blast
next
  define g where "g = snd (barbell_graph 3 0 None []) ! 0"
  have "returns (barbell_graph 3 0 None h) g"
    unfolding g_def
    by (simp only: barbell_graph_place [of None _ 3 0, simplified] returns_place valid_cu_None
          snd_conv) (simp add: place_def)
  moreover have "number_of_nodes g = 6 \<and> number_of_edges g = 7 \<and>
        edges g = [(NInt 0, NInt 1), (NInt 0, NInt 2), (NInt 1, NInt 2),
                   (NInt 3, NInt 4), (NInt 3, NInt 5), (NInt 4, NInt 5),
                   (NInt 2, NInt 3)]"
    unfolding g_def by code_simp
  ultimately show "\<exists>g. returns (barbell_graph 3 0 None h) g \<and>
        number_of_nodes g = 6 \<and> number_of_edges g = 7 \<and>
        edges g = [(NInt 0, NInt 1), (NInt 0, NInt 2), (NInt 1, NInt 2),
                   (NInt 3, NInt 4), (NInt 3, NInt 5), (NInt 4, NInt 5),
                   (NInt 2, NInt 3)]" by blast
qed

theorem barbell_graph_nodes_witness:
  "\<exists>g. returns (barbell_graph 2 3 None []) g \<and> set (nodes g) = NInt ` {0..6}"
  using barbell_graph_nodes [of None "[]" 2 3, simplified] by blast


subsection \<open>complete\_multipartite\_graph and turan\_graph\<close>

lemma set_block_sel [simp]:
  "is_directed (set_block v i G) = is_directed G"
  "is_multigraph (set_block v i G) = is_multigraph G"
  "name (set_block v i G) = name G"
  "nodes (set_block v i G) = nodes G"
  "edges (set_block v i G) = edges G"
  by (simp_all add: set_block_def)

lemma add_nodes_from_block_sel [simp]:
  "is_directed (add_nodes_from_block vs i G) = is_directed G"
  "is_multigraph (add_nodes_from_block vs i G) = is_multigraph G"
  "name (add_nodes_from_block vs i G) = name G"
  "edges (add_nodes_from_block vs i G) = edges G"
  unfolding add_nodes_from_block_def by (induction vs arbitrary: G; simp)+

lemma blocks_added_sel [simp]:
  "is_directed (blocks_added i vss G) = is_directed G"
  "is_multigraph (blocks_added i vss G) = is_multigraph G"
  "name (blocks_added i vss G) = name G"
  "edges (blocks_added i vss G) = edges G"
  by (induction vss arbitrary: i G; simp)+

lemma add_blocks_place:
  "valid_cu cu h \<Longrightarrow>
   add_blocks (target cu h) i (map Nodes vss) (place cu h g) =
     (Inr (), place cu h (blocks_added i vss g))"
  by (induction vss arbitrary: i g) simp_all

lemma all_ints_Count [simp]: "all_ints (map Count ks) = Some ks"
  by (induction ks) simp_all

lemma blocks_of_ranges:
  "map (\<lambda>(start, end). f [start..end - 1]) (pairwise_seq (s # accumulate_from s ks)) =
   map f (range_blocks s ks)"
  by (induction ks arbitrary: s) (simp_all add: pairwise_seq_def)

lemma blocks_of_Count:
  "blocks_of (map Count ks) = map Nodes (map (map NInt) (range_blocks 0 ks))"
  using blocks_of_ranges [of "\<lambda>is. Nodes (map NInt is)" 0 ks]
  by (simp add: blocks_of_def accumulate_def pairwise_seq_def comp_def)

lemma add_edges_from_append:
  "add_edges_from (es @ fs) g = add_edges_from fs (add_edges_from es g)"
  by (simp add: add_edges_from_def)

lemma foldl_add_edges_from:
  "foldl (\<lambda>g x. add_edges_from (F x) g) g xs = add_edges_from (concat (map F xs)) g"
  by (induction xs arbitrary: g) (simp_all add: add_edges_from_append)

lemma combinations2_map: "combinations2 (map f xs) = map (map_prod f f) (combinations2 xs)"
  by (induction xs) simp_all

lemma product2_map:
  "product2 (map f xs) (map g ys) = map (map_prod f g) (product2 xs ys)"
  by (simp add: product2_def map_concat comp_def)

lemma cross_edges_map:
  "cross_edges (map (map f) bs) = map (map_prod f f) (cross_edges bs)"
  by (simp add: cross_edges_def combinations2_map map_concat comp_def product2_map)

lemma complete_multipartite_graph_ints:
  "ks \<noteq> [] \<Longrightarrow>
   complete_multipartite_graph (map Count ks) h =
     (Inr (target None h),
      place None h
        (add_edges_from (map (map_prod NInt NInt) (cross_edges (range_blocks 0 ks)))
           (blocks_added 0 (map (map NInt) (range_blocks 0 ks))
              (set_name (''complete_multiparite_graph'' @ repr_tuple (map str_int ks)) Graph))))"
proof -
  assume ne: "ks \<noteq> []"
  have new: "new_Graph h = (target None h, place None h Graph)"
    by (simp add: new_Graph_def target_def place_def)
  have fold: "foldl (\<lambda>h' (block1, block2).
            mutate (target None h) (add_edges_from (product2 (block_nodes block1) (block_nodes block2))) h')
          (place None h g) bs
        = place None h (add_edges_from
            (concat (map (\<lambda>p. product2 (block_nodes (fst p)) (block_nodes (snd p))) bs)) g)" for g bs
    using foldl_mutate_place [of None h "\<lambda>p. add_edges_from (product2 (block_nodes (fst p)) (block_nodes (snd p)))" g bs]
    by (simp add: case_prod_unfold foldl_add_edges_from)
  have edges: "concat (map (\<lambda>p. product2 (block_nodes (fst p)) (block_nodes (snd p)))
                   (combinations2 (map Nodes (map (map NInt) (range_blocks 0 ks)))))
        = map (map_prod NInt NInt) (cross_edges (range_blocks 0 ks))"
    by (simp add: combinations2_map comp_def cross_edges_map [symmetric]) (simp add: cross_edges_def combinations2_map comp_def)
  have len: "(length (map Count ks) = 0) = False" using ne by simp
  have names: "map str_spec (map Count ks) = map str_int ks" by simp
  show ?thesis
    by (simp only: complete_multipartite_graph_def new Let_def prod.case mutate_place
          valid_cu_None blocks_of_Count add_blocks_place fold edges len names if_False sum.case)
qed


lemma set_product2 [simp]: "set (product2 xs ys) = set xs \<times> set ys"
  by (auto simp: product2_def)

lemma cross_edges_Cons:
  "cross_edges (b # bs) = concat (map (product2 b) bs) @ cross_edges bs"
  by (simp add: cross_edges_def comp_def)

lemma cross_edges_Nil [simp]: "cross_edges [] = []"
  by (simp add: cross_edges_def)

lemma set_cross_edges_subset:
  "set (cross_edges bs) \<subseteq> set (concat bs) \<times> set (concat bs)"
  by (induction bs) (auto simp: cross_edges_Cons)

lemma sum_list_nonneg': "\<forall>k \<in> set ks. (0::int) \<le> k \<Longrightarrow> 0 \<le> sum_list ks"
  by (induction ks) auto

lemma set_concat_range_blocks:
  "\<forall>k \<in> set ks. 0 \<le> k \<Longrightarrow> set (concat (range_blocks s ks)) = {s..s + sum_list ks - 1}"
proof (induction ks arbitrary: s)
  case Nil
  then show ?case by simp
next
  case (Cons k ks)
  have "0 \<le> k" "0 \<le> sum_list ks" using Cons.prems sum_list_nonneg' [of ks] by auto
  then have "{s..s + k - 1} \<union> {s + k..s + k + sum_list ks - 1} = {s..s + (k + sum_list ks) - 1}"
    by auto
  with Cons show ?case by simp
qed

lemma cross_edges_range_ascending:
  "\<forall>k \<in> set ks. 0 \<le> k \<Longrightarrow> (a, b) \<in> set (cross_edges (range_blocks s ks)) \<Longrightarrow> a < b"
proof (induction ks arbitrary: s)
  case Nil
  then show ?case by simp
next
  case (Cons k ks)
  have nn: "\<forall>k \<in> set ks. 0 \<le> k" using Cons.prems by simp
  from Cons.prems(2) consider
    "a \<in> {s..s + k - 1}" "b \<in> set (concat (range_blocks (s + k) ks))"
    | "(a, b) \<in> set (cross_edges (range_blocks (s + k) ks))"
    by (auto simp: cross_edges_Cons)
  then show ?case
  proof cases
    case 1
    then show ?thesis unfolding set_concat_range_blocks [OF nn] by simp
  next
    case 2
    then show ?thesis using Cons.IH [OF nn] by blast
  qed
qed

lemma card_cross_edges_range:
  "\<forall>k \<in> set ks. 0 \<le> k \<Longrightarrow>
   int (card (set (cross_edges (range_blocks s ks)))) = pair_products ks"
proof (induction ks arbitrary: s)
  case Nil
  then show ?case by simp
next
  case (Cons k ks)
  have nn: "\<forall>k \<in> set ks. 0 \<le> k" and k: "0 \<le> k" using Cons.prems by simp_all
  have sn: "0 \<le> sum_list ks" using nn by (rule sum_list_nonneg')
  let ?A = "{s..s + k - 1} \<times> {s + k..s + k + sum_list ks - 1}"
  let ?B = "set (cross_edges (range_blocks (s + k) ks))"
  have set_eq: "set (cross_edges (range_blocks s (k # ks))) = ?A \<union> ?B"
    using set_concat_range_blocks [OF nn, of "s + k"] by (auto simp: cross_edges_Cons)
  have "?B \<subseteq> {s + k..s + k + sum_list ks - 1} \<times> {s + k..s + k + sum_list ks - 1}"
    using set_cross_edges_subset [of "range_blocks (s + k) ks"]
    unfolding set_concat_range_blocks [OF nn] .
  then have disj: "?A \<inter> ?B = {}" by auto
  have cu: "card (?A \<union> ?B) = card ?A + card ?B"
    by (rule card_Un_disjoint) (simp_all add: disj)
  have ca: "int (card ?A) = k * sum_list ks"
    using k sn by (simp add: card_cartesian_product)
  have "int (card (set (cross_edges (range_blocks s (k # ks))))) = int (card (?A \<union> ?B))"
    by (simp only: set_eq)
  also have "\<dots> = int (card ?A) + int (card ?B)"
    by (simp only: cu of_nat_add)
  also have "\<dots> = k * sum_list ks + pair_products ks"
    by (simp only: ca Cons.IH [OF nn, of "s + k"])
  finally show ?case by simp
qed

lemma pair_products_squares:
  "2 * pair_products ks + sum_list (map (\<lambda>k. k * k) ks) = sum_list ks * sum_list ks"
  by (induction ks) (simp_all add: algebra_simps)


lemma complete_multipartite_graph_edge_count:
  assumes "ks \<noteq> []" "\<forall>k \<in> set ks. 0 \<le> k"
  shows "\<exists>g. complete_multipartite_graph (map Count ks) h = (Inr (length h), h @ [g]) \<and>
             \<not> is_directed g \<and> \<not> is_multigraph g \<and>
             int (number_of_edges g) = pair_products ks"
proof -
  define g0 where "g0 = blocks_added 0 (map (map NInt) (range_blocks 0 ks))
              (set_name (''complete_multiparite_graph'' @ repr_tuple (map str_int ks)) Graph)"
  define E where "E = cross_edges (range_blocks 0 ks)"
  define g where "g = add_edges_from (map (map_prod NInt NInt) E) g0"
  have run: "complete_multipartite_graph (map Count ks) h = (Inr (length h), h @ [g])"
    by (simp add: complete_multipartite_graph_ints [OF assms(1)] g_def g0_def E_def target_def
          place_def)
  have e0: "edges g0 = []" and simple: "\<not> is_directed g0" "\<not> is_multigraph g0"
    by (simp_all add: g0_def)
  have asc: "a < b" if "(a, b) \<in> set E" for a b
    using that cross_edges_range_ascending [OF assms(2)] unfolding E_def by blast
  have "one_way (set (edges g0) \<union> set (map (map_prod NInt NInt) E))"
    unfolding one_way_def
  proof
    fix e assume "e \<in> set (edges g0) \<union> set (map (map_prod NInt NInt) E)"
    then obtain a b where ab: "e = (NInt a, NInt b)" "(a, b) \<in> set E"
      by (auto simp: e0)
    have "(b, a) \<notin> set E" using asc [of a b] asc [of b a] ab(2) by auto
    then show "(snd e, fst e) \<notin> set (edges g0) \<union> set (map (map_prod NInt NInt) E)"
      by (auto simp: e0 ab(1))
  qed
  then have "set (edges g) = map_prod NInt NInt ` set E"
    using set_edges_add_edges_from_one_way [of g0 "map (map_prod NInt NInt) E"]
    by (simp add: g_def e0)
  moreover have "distinct (edges g)"
    unfolding g_def using simple by (intro distinct_edges_add_edges_from) (simp_all add: e0)
  moreover have "card (map_prod NInt NInt ` set E) = card (set E)"
    by (rule card_image) (auto simp: inj_on_def)
  ultimately have "number_of_edges g = card (set E)"
    by (simp add: number_of_edges_def distinct_card [symmetric])
  then have "int (number_of_edges g) = pair_products ks"
    using card_cross_edges_range [OF assms(2), of 0] by (simp add: E_def)
  moreover have "\<not> is_directed g" "\<not> is_multigraph g"
    using simple by (simp_all add: g_def)
  ultimately show ?thesis using run by blast
qed

lemma partitions_facts:
  assumes "1 \<le> r" "r \<le> n"
  shows "length (partitions n r) = nat r"
    and "sum_list (partitions n r) = n"
    and "\<forall>k \<in> set (partitions n r). k = n div r \<or> k = n div r + 1"
    and "\<forall>k \<in> set (partitions n r). 0 \<le> k"
    and "sum_list (map (\<lambda>k. k * k) (partitions n r)) =
           (r - n mod r) * (n div r * (n div r)) + n mod r * ((n div r + 1) * (n div r + 1))"
proof -
  have s: "0 \<le> n mod r" "n mod r < r" using assms by simp_all
  have q: "0 \<le> n div r" using assms by (simp add: pos_imp_zdiv_nonneg_iff)
  show "length (partitions n r) = nat r"
    using s by (simp add: partitions_def nat_add_distrib [symmetric])
  have "(r - n mod r) * (n div r) + n mod r * (n div r + 1) = r * (n div r) + n mod r"
    by (simp add: algebra_simps)
  then show "sum_list (partitions n r) = n"
    using s by (simp add: partitions_def sum_list_replicate)
  show "\<forall>k \<in> set (partitions n r). k = n div r \<or> k = n div r + 1"
    by (auto simp: partitions_def)
  show "\<forall>k \<in> set (partitions n r). 0 \<le> k"
    using q by (auto simp: partitions_def)
  show "sum_list (map (\<lambda>k. k * k) (partitions n r)) =
           (r - n mod r) * (n div r * (n div r)) + n mod r * ((n div r + 1) * (n div r + 1))"
    using s by (simp add: partitions_def sum_list_replicate)
qed

lemma turan_pair_products:
  assumes "1 \<le> r" "r \<le> n"
  shows "2 * r * pair_products (partitions n r) = (r - 1) * n\<^sup>2 - n mod r * (r - n mod r)"
proof -
  define q where "q = n div r"
  define s where "s = n mod r"
  have n: "n = r * q + s" by (simp add: q_def s_def)
  have "2 * pair_products (partitions n r) + ((r - s) * (q * q) + s * ((q + 1) * (q + 1))) = n * n"
    using pair_products_squares [of "partitions n r"] partitions_facts(2,5) [OF assms]
    by (simp add: q_def s_def)
  then have "2 * pair_products (partitions n r) = n * n - ((r - s) * (q * q) + s * ((q + 1) * (q + 1)))"
    by simp
  then have "2 * r * pair_products (partitions n r)
        = r * (n * n - ((r - s) * (q * q) + s * ((q + 1) * (q + 1))))"
    by simp
  also have "\<dots> = (r - 1) * (n * n) - s * (r - s)"
    unfolding n by (simp add: algebra_simps)
  finally show ?thesis by (simp add: power2_eq_square s_def)
qed

lemma turan_graph_edges:
  assumes "1 \<le> r" "r \<le> n"
  shows "\<exists>g0. complete_multipartite_graph (map Count (partitions n r)) h = (Inr (length h), h @ [g0]) \<and>
          turan_graph n r h =
            (Inr (length h),
             h @ [set_name (''turan_graph('' @ str_int n @ '','' @ str_int r @ '')'') g0]) \<and>
          \<not> is_directed g0 \<and> \<not> is_multigraph g0 \<and>
          2 * r * int (number_of_edges g0) = (r - 1) * n\<^sup>2 - n mod r * (r - n mod r)"
proof -
  have ne: "partitions n r \<noteq> []"
    using partitions_facts(1) [OF assms] assms(1) by auto
  obtain g0 where g0: "complete_multipartite_graph (map Count (partitions n r)) h = (Inr (length h), h @ [g0])"
      "\<not> is_directed g0" "\<not> is_multigraph g0"
      "int (number_of_edges g0) = pair_products (partitions n r)"
    using complete_multipartite_graph_edge_count [OF ne partitions_facts(4) [OF assms]] by blast
  have "turan_graph n r h =
            (Inr (length h),
             h @ [set_name (''turan_graph('' @ str_int n @ '','' @ str_int r @ '')'') g0])"
    using assms by (simp add: turan_graph_def g0(1) mutate_list_update)
  then show ?thesis
    using g0 turan_pair_products [OF assms] by auto
qed

text \<open>
  What the code does for all integers \<open>1 \<le> r \<le> n\<close>: \<open>turan_graph(n, r)\<close> is the graph
  \<open>complete_multipartite_graph\<close> returns for \<open>r\<close> block sizes that are \<open>n div r\<close> or
  \<open>n div r + 1\<close> and sum to \<open>n\<close>, renamed. With \<open>s = n mod r\<close> it has exactly
  \<open>((r-1)*n^2 - s*(r-s)) / (2*r)\<close> edges. That is at most \<open>floor((r-1)*n^2 / (2*r))\<close>, and equal
  to it whenever \<open>s*(r-s) < 2*r\<close>, so for every \<open>r \<le> 7\<close>.
\<close>

lemma turan_graph_blocks_and_edges:
  "1 \<le> r \<Longrightarrow> r \<le> n \<Longrightarrow>
   \<exists>g0 g. returns (complete_multipartite_graph (map Count (partitions n r)) h) g0 \<and>
          returns (turan_graph n r h) g \<and>
          g = set_name (''turan_graph('' @ str_int n @ '','' @ str_int r @ '')'') g0 \<and>
          length (partitions n r) = nat r \<and>
          sum_list (partitions n r) = n \<and>
          (\<forall>k \<in> set (partitions n r). k = n div r \<or> k = n div r + 1) \<and>
          int (number_of_edges g) = ((r - 1) * n\<^sup>2 - n mod r * (r - n mod r)) div (2 * r) \<and>
          int (number_of_edges g) \<le> (r - 1) * n\<^sup>2 div (2 * r) \<and>
          (n mod r * (r - n mod r) < 2 * r \<longrightarrow>
             int (number_of_edges g) = (r - 1) * n\<^sup>2 div (2 * r)) \<and>
          (r \<le> 7 \<longrightarrow> int (number_of_edges g) = (r - 1) * n\<^sup>2 div (2 * r))"
proof -
  assume a: "1 \<le> r" "r \<le> n"
  obtain g0 where g0:
      "complete_multipartite_graph (map Count (partitions n r)) h = (Inr (length h), h @ [g0])"
      "turan_graph n r h =
         (Inr (length h),
          h @ [set_name (''turan_graph('' @ str_int n @ '','' @ str_int r @ '')'') g0])"
      "2 * r * int (number_of_edges g0) = (r - 1) * n\<^sup>2 - n mod r * (r - n mod r)"
    using turan_graph_edges [OF a, of h] by blast
  define g where "g = set_name (''turan_graph('' @ str_int n @ '','' @ str_int r @ '')'') g0"
  define E where "E = int (number_of_edges g)"
  define t where "t = n mod r * (r - n mod r)"
  have r1: "returns (complete_multipartite_graph (map Count (partitions n r)) h) g0"
    by (simp add: g0(1) returns_def)
  have r2: "returns (turan_graph n r h) g"
    by (simp add: g0(2) returns_def g_def)
  have EE: "2 * r * E = (r - 1) * n\<^sup>2 - t"
    using g0(3) by (simp add: E_def g_def number_of_edges_def t_def)
  have "0 \<le> n mod r" "0 \<le> r - n mod r" using a by (simp_all add: less_imp_le)
  then have t0: "0 \<le> t" unfolding t_def by (rule mult_nonneg_nonneg)
  have r0: "0 < 2 * r" using a by simp
  have e1: "((r - 1) * n\<^sup>2 - t) div (2 * r) = E"
    using r0 by (simp only: EE [symmetric]) simp
  have X: "(r - 1) * n\<^sup>2 = 2 * r * E + t" using EE by simp
  have e2: "(r - 1) * n\<^sup>2 div (2 * r) = E + t div (2 * r)"
    using r0 by (simp only: X) simp
  have e3: "E \<le> (r - 1) * n\<^sup>2 div (2 * r)"
    using t0 r0 by (simp add: e2 pos_imp_zdiv_nonneg_iff)
  have e4: "E = (r - 1) * n\<^sup>2 div (2 * r)" if "t < 2 * r"
    using that t0 by (simp add: e2)
  have e5: "E = (r - 1) * n\<^sup>2 div (2 * r)" if "r \<le> 7"
  proof -
    have "0 \<le> (r - 2 * (n mod r))\<^sup>2" by simp
    then have "4 * t \<le> r * r" by (simp add: t_def power2_eq_square algebra_simps)
    moreover have "r * r \<le> 7 * r" using that a by (simp add: mult_right_mono)
    ultimately have "t < 2 * r" using a by linarith
    then show ?thesis by (rule e4)
  qed
  show ?thesis
  proof (intro exI conjI impI)
    show "returns (complete_multipartite_graph (map Count (partitions n r)) h) g0" by (rule r1)
    show "returns (turan_graph n r h) g" by (rule r2)
    show "g = set_name (''turan_graph('' @ str_int n @ '','' @ str_int r @ '')'') g0"
      by (rule g_def)
    show "length (partitions n r) = nat r" by (rule partitions_facts(1) [OF a])
    show "sum_list (partitions n r) = n" by (rule partitions_facts(2) [OF a])
    show "\<forall>k \<in> set (partitions n r). k = n div r \<or> k = n div r + 1"
      by (rule partitions_facts(3) [OF a])
    show "int (number_of_edges g) = ((r - 1) * n\<^sup>2 - n mod r * (r - n mod r)) div (2 * r)"
      using e1 by (simp add: E_def t_def)
    show "int (number_of_edges g) \<le> (r - 1) * n\<^sup>2 div (2 * r)"
      using e3 by (simp add: E_def)
    show "int (number_of_edges g) = (r - 1) * n\<^sup>2 div (2 * r)"
      if "n mod r * (r - n mod r) < 2 * r"
      using e4 that by (simp add: E_def t_def)
    show "int (number_of_edges g) = (r - 1) * n\<^sup>2 div (2 * r)" if "r \<le> 7"
      using e5 that by (simp add: E_def)
  qed
qed

text \<open>
  Claim C3. The claim, like the docstring of \<open>turan_graph\<close> (``The graph has
  \<open>(r-1)(n^2)/(2r)\<close> edges, rounded down''), gives the graph exactly
  \<open>floor((r-1)*n^2 / (2*r))\<close> edges for all \<open>1 \<le> r \<le> n\<close>. At \<open>n = 12\<close>, \<open>r = 8\<close> the code
  builds the blocks \<open>1, 1, 1, 1, 2, 2, 2, 2\<close> (they differ by at most 1 and sum to 12) and
  returns a graph of 62 edges, where the formula gives 63.
\<close>

theorem turan_graph_12_8_edges:
  "partitions 12 8 = [1, 1, 1, 1, 2, 2, 2, 2] \<and>
   (\<exists>g. returns (turan_graph 12 8 h) g \<and> number_of_edges g = 62) \<and>
   (8 - 1) * 12\<^sup>2 div (2 * 8) = (63 :: int)"
proof -
  obtain g0 where g0:
      "turan_graph 12 8 h =
         (Inr (length h),
          h @ [set_name (''turan_graph('' @ str_int 12 @ '','' @ str_int 8 @ '')'') g0])"
      "2 * 8 * int (number_of_edges g0) = (8 - 1) * 12\<^sup>2 - 12 mod 8 * (8 - 12 mod 8)"
    using turan_graph_edges [of 8 12 h] by auto
  from g0(2) have "int (number_of_edges g0) = 62" by simp
  then have "\<exists>g. returns (turan_graph 12 8 h) g \<and> number_of_edges g = 62"
    by (simp add: g0(1) returns_def number_of_edges_def)
  moreover have "partitions 12 8 = [1, 1, 1, 1, 2, 2, 2, 2]"
    by code_simp
  ultimately show ?thesis by simp
qed


subsection \<open>grid\_2d\_graph\<close>

lemma grid_2d_graph_lattice:
  "grid_2d_graph (Count m) (Count n) False None h =
     (target None h, place None h (grid_lattice m n))"
  by (simp add: grid_2d_graph_def empty_graph_place nodes_or_number_def Let_def
        grid_lattice_def grid_nodes_def grid_row_edges_def grid_column_edges_def)

lemma grid_2d_graph_wrapped:
  "grid_2d_graph (Count m) (Count n) True None h =
     (target None h, place None h (grid_wrapped m n))"
proof -
  have l: "(2 < length [0..k - 1]) = (2 < k)" for k :: int by auto
  have h1: "2 < k \<Longrightarrow> hd (map NInt [0..k - 1]) = NInt 0" for k
    by (simp add: upto_rec1 [of 0 "k - 1"])
  have h2: "2 < k \<Longrightarrow> last (map NInt [0..k - 1]) = NInt (k - 1)" for k
    by (simp add: upto_rec2 [of 0 "k - 1"])
  show ?thesis
    using h1 h2
    by (simp add: grid_2d_graph_def empty_graph_place nodes_or_number_def Let_def l
        grid_wrapped_def grid_lattice_def grid_nodes_def grid_row_edges_def
        grid_column_edges_def)
qed


lemma pairwise_seq_Cons2: "pairwise_seq (x # y # ys) = (x, y) # pairwise_seq (y # ys)"
  by (simp add: pairwise_seq_def)

lemma pairwise_seq_upto: "pairwise_seq [a..b] = map (\<lambda>i. (i, i + 1)) [a..b - 1]"
proof (induction a b rule: upto.induct)
  case (1 i j)
  show ?case
  proof (cases "i < j")
    case True
    then have l: "[i..j] = i # (i + 1) # [i + 1 + 1..j]"
      by (simp add: upto_rec1 [of i j] upto_rec1 [of "i + 1" j])
    have r: "[i + 1..j] = (i + 1) # [i + 1 + 1..j]"
      using True by (simp add: upto_rec1 [of "i + 1" j])
    have "pairwise_seq [i..j] = (i, i + 1) # pairwise_seq [i + 1..j]"
      unfolding l r by (rule pairwise_seq_Cons2)
    also have "\<dots> = (i, i + 1) # map (\<lambda>i. (i, i + 1)) [i + 1..j - 1]"
      using 1 True by simp
    also have "\<dots> = map (\<lambda>i. (i, i + 1)) [i..j - 1]"
      using True by (simp add: upto_rec1 [of i "j - 1"])
    finally show ?thesis .
  next
    case False
    then consider "i = j" | "j < i" by linarith
    then show ?thesis by cases (simp_all add: pairwise_seq_def)
  qed
qed

lemma pairwise_seq_map: "pairwise_seq (map f xs) = map (map_prod f f) (pairwise_seq xs)"
  by (simp only: pairwise_seq_def map_tl [symmetric] zip_map_map map_prod_def)

lemma set_grid_nodes:
  "set (grid_nodes (map NInt [0..m - 1]) (map NInt [0..n - 1])) =
     {NTup [NInt a, NInt b] | a b. 0 \<le> a \<and> a \<le> m - 1 \<and> 0 \<le> b \<and> b \<le> n - 1}"
  by (auto simp: grid_nodes_def)

lemma set_grid_row_edges:
  "set (grid_row_edges (map NInt [0..m - 1]) (map NInt [0..n - 1])) =
     {(NTup [NInt (a + 1), NInt b], NTup [NInt a, NInt b]) | a b.
        0 \<le> a \<and> a \<le> m - 2 \<and> 0 \<le> b \<and> b \<le> n - 1}"
  by (auto simp: grid_row_edges_def pairwise_seq_map pairwise_seq_upto)

lemma set_grid_column_edges:
  "set (grid_column_edges (map NInt [0..m - 1]) (map NInt [0..n - 1])) =
     {(NTup [NInt a, NInt (b + 1)], NTup [NInt a, NInt b]) | a b.
        0 \<le> a \<and> a \<le> m - 1 \<and> 0 \<le> b \<and> b \<le> n - 2}"
  by (auto simp: grid_column_edges_def pairwise_seq_map pairwise_seq_upto)

lemma one_way_subset: "one_way S \<Longrightarrow> T \<subseteq> S \<Longrightarrow> one_way T"
  by (auto simp: one_way_def)

lemma degree_neighbours:
  assumes "distinct (edges g)"
  shows "degree g v = card {w. (v, w) \<in> set (edges g)} + card {w. (w, v) \<in> set (edges g)}"
proof -
  have "{e \<in> set (edges g). fst e = v} = Pair v ` {w. (v, w) \<in> set (edges g)}" by force
  moreover have "{e \<in> set (edges g). snd e = v} = (\<lambda>w. (w, v)) ` {w. (w, v) \<in> set (edges g)}"
    by force
  moreover have "card (Pair v ` {w. (v, w) \<in> set (edges g)}) = card {w. (v, w) \<in> set (edges g)}"
    by (rule card_image) (simp add: inj_on_def)
  moreover have "card ((\<lambda>w. (w, v)) ` {w. (w, v) \<in> set (edges g)}) = card {w. (w, v) \<in> set (edges g)}"
    by (rule card_image) (simp add: inj_on_def)
  ultimately show ?thesis using degree_card [OF assms, of v] by simp
qed

lemma one_way_lattice: "one_way (lattice_edges m n)"
  by (auto simp: one_way_def lattice_edges_def)

lemma one_way_lattice_wrap: "2 < m \<Longrightarrow> 2 < n \<Longrightarrow> one_way (lattice_edges m n \<union> wrap_edges m n)"
  by (auto simp: one_way_def lattice_edges_def wrap_edges_def)

lemma grid_lattice_edges:
  "set (edges (grid_lattice m n)) = lattice_edges m n" "distinct (edges (grid_lattice m n))"
proof -
  define g0 where "g0 = add_nodes_from (grid_nodes (map NInt [0..m - 1]) (map NInt [0..n - 1]))
             (set_name (''grid_2d_graph('' @ str_int m @ '', '' @ str_int n @ '')'')
                (set_name (''empty_graph('' @ str_int 0 @ '')'') Graph))"
  define g1 where "g1 = add_edges_from (grid_row_edges (map NInt [0..m - 1]) (map NInt [0..n - 1])) g0"
  have g: "grid_lattice m n = add_edges_from (grid_column_edges (map NInt [0..m - 1]) (map NInt [0..n - 1])) g1"
    by (simp add: grid_lattice_def g1_def g0_def)
  have e0: "edges g0 = []" by (simp add: g0_def)
  have "one_way (set (edges g0) \<union> set (grid_row_edges (map NInt [0..m - 1]) (map NInt [0..n - 1])))"
    by (rule one_way_subset [OF one_way_lattice [of m n]])
       (simp add: e0 set_grid_row_edges lattice_edges_def)
  then have e1: "set (edges g1) = set (grid_row_edges (map NInt [0..m - 1]) (map NInt [0..n - 1]))"
    unfolding g1_def by (simp add: set_edges_add_edges_from_one_way e0)
  have "one_way (set (edges g1) \<union> set (grid_column_edges (map NInt [0..m - 1]) (map NInt [0..n - 1])))"
    by (rule one_way_subset [OF one_way_lattice [of m n]])
       (simp add: e1 set_grid_row_edges set_grid_column_edges lattice_edges_def)
  then show "set (edges (grid_lattice m n)) = lattice_edges m n"
    unfolding g by (simp add: set_edges_add_edges_from_one_way e1 set_grid_row_edges
        set_grid_column_edges lattice_edges_def)
  have "distinct (edges g1)"
    unfolding g1_def by (rule distinct_edges_add_edges_from) (simp_all add: g0_def)
  then show "distinct (edges (grid_lattice m n))"
    unfolding g by (intro distinct_edges_add_edges_from) (simp_all add: g1_def g0_def)
qed


lemma grid_wrapped_edges:
  assumes "2 < m" "2 < n"
  shows "set (edges (grid_wrapped m n)) = lattice_edges m n \<union> wrap_edges m n"
    and "distinct (edges (grid_wrapped m n))"
proof -
  define W1 where "W1 = map (\<lambda>i. (NTup [i, NInt 0], NTup [i, NInt (n - 1)])) (map NInt [0..m - 1])"
  define W2 where "W2 = map (\<lambda>j. (NTup [NInt 0, j], NTup [NInt (m - 1), j])) (map NInt [0..n - 1])"
  define g1 where "g1 = add_edges_from W1 (grid_lattice m n)"
  define g2 where "g2 = add_edges_from W2 g1"
  have s1: "set W1 = {(NTup [NInt a, NInt 0], NTup [NInt a, NInt (n - 1)]) | a. 0 \<le> a \<and> a \<le> m - 1}"
    by (auto simp: W1_def)
  have s2: "set W2 = {(NTup [NInt 0, NInt b], NTup [NInt (m - 1), NInt b]) | b. 0 \<le> b \<and> b \<le> n - 1}"
    by (auto simp: W2_def)
  have w: "wrap_edges m n = set W1 \<union> set W2" by (simp add: wrap_edges_def s1 s2)
  have e: "edges (grid_wrapped m n) = edges g2"
    using assms by (simp add: grid_wrapped_def g2_def g1_def W1_def W2_def)
  have ow: "one_way (lattice_edges m n \<union> wrap_edges m n)"
    using assms by (rule one_way_lattice_wrap)
  have "one_way (set (edges (grid_lattice m n)) \<union> set W1)"
    by (rule one_way_subset [OF ow]) (auto simp: grid_lattice_edges(1) w)
  then have e1: "set (edges g1) = lattice_edges m n \<union> set W1"
    unfolding g1_def by (simp add: set_edges_add_edges_from_one_way grid_lattice_edges(1))
  have "one_way (set (edges g1) \<union> set W2)"
    by (rule one_way_subset [OF ow]) (auto simp: e1 w)
  then have "set (edges g2) = lattice_edges m n \<union> set W1 \<union> set W2"
    unfolding g2_def by (simp add: set_edges_add_edges_from_one_way e1)
  then show "set (edges (grid_wrapped m n)) = lattice_edges m n \<union> wrap_edges m n"
    by (simp add: e w Un_assoc)
  have "\<not> is_multigraph (grid_lattice m n)" by (simp add: grid_lattice_def)
  then have "distinct (edges g1)"
    unfolding g1_def by (intro distinct_edges_add_edges_from grid_lattice_edges(2))
  then have "distinct (edges g2)"
    unfolding g2_def by (intro distinct_edges_add_edges_from) (simp_all add: g1_def grid_lattice_def)
  then show "distinct (edges (grid_wrapped m n))" by (simp add: e)
qed

lemma wrap_edges_split: "wrap_edges m n = column_wrap_edges m n \<union> row_wrap_edges m n"
  by (simp add: wrap_edges_def column_wrap_edges_def row_wrap_edges_def)

lemma one_way_lattice_any_wrap:
  "one_way (lattice_edges m n \<union> (if 2 < n then column_wrap_edges m n else {}) \<union>
            (if 2 < m then row_wrap_edges m n else {}))"
  by (auto simp: one_way_def lattice_edges_def column_wrap_edges_def row_wrap_edges_def
      split: if_splits)

lemma grid_wrapped_edges_any:
  shows "set (edges (grid_wrapped m n)) =
           lattice_edges m n \<union> (if 2 < n then column_wrap_edges m n else {}) \<union>
           (if 2 < m then row_wrap_edges m n else {})"
    and "distinct (edges (grid_wrapped m n))"
proof -
  define W1 where "W1 = (if 2 < n
     then map (\<lambda>i. (NTup [i, NInt 0], NTup [i, NInt (n - 1)])) (map NInt [0..m - 1]) else [])"
  define W2 where "W2 = (if 2 < m
     then map (\<lambda>j. (NTup [NInt 0, j], NTup [NInt (m - 1), j])) (map NInt [0..n - 1]) else [])"
  define g1 where "g1 = add_edges_from W1 (grid_lattice m n)"
  define g2 where "g2 = add_edges_from W2 g1"
  have s1: "set W1 = (if 2 < n then column_wrap_edges m n else {})"
    by (auto simp: W1_def column_wrap_edges_def)
  have s2: "set W2 = (if 2 < m then row_wrap_edges m n else {})"
    by (auto simp: W2_def row_wrap_edges_def)
  have e: "edges (grid_wrapped m n) = edges g2"
    by (simp add: grid_wrapped_def g2_def g1_def W1_def W2_def)
  have ow: "one_way (lattice_edges m n \<union> set W1 \<union> set W2)"
    unfolding s1 s2 by (rule one_way_lattice_any_wrap)
  have "one_way (set (edges (grid_lattice m n)) \<union> set W1)"
    by (rule one_way_subset [OF ow]) (auto simp: grid_lattice_edges(1))
  then have e1: "set (edges g1) = lattice_edges m n \<union> set W1"
    unfolding g1_def by (simp add: set_edges_add_edges_from_one_way grid_lattice_edges(1))
  have "one_way (set (edges g1) \<union> set W2)"
    by (rule one_way_subset [OF ow]) (auto simp: e1)
  then have "set (edges g2) = lattice_edges m n \<union> set W1 \<union> set W2"
    unfolding g2_def by (simp add: set_edges_add_edges_from_one_way e1)
  then show "set (edges (grid_wrapped m n)) =
           lattice_edges m n \<union> (if 2 < n then column_wrap_edges m n else {}) \<union>
           (if 2 < m then row_wrap_edges m n else {})"
    by (simp only: e s1 s2)
  have "\<not> is_multigraph (grid_lattice m n)" by (simp add: grid_lattice_def)
  then have "distinct (edges g1)"
    unfolding g1_def by (intro distinct_edges_add_edges_from grid_lattice_edges(2))
  then have "distinct (edges g2)"
    unfolding g2_def by (intro distinct_edges_add_edges_from) (simp_all add: g1_def grid_lattice_def)
  then show "distinct (edges (grid_wrapped m n))" by (simp add: e)
qed

lemma grid_nodes_set:
  assumes "1 \<le> m" "1 \<le> n"
  shows "set (nodes (grid_lattice m n)) =
           {NTup [NInt a, NInt b] | a b. 0 \<le> a \<and> a \<le> m - 1 \<and> 0 \<le> b \<and> b \<le> n - 1}"
    and "set (nodes (grid_wrapped m n)) =
           {NTup [NInt a, NInt b] | a b. 0 \<le> a \<and> a \<le> m - 1 \<and> 0 \<le> b \<and> b \<le> n - 1}"
    and "distinct (nodes (grid_lattice m n))" and "distinct (nodes (grid_wrapped m n))"
proof -
  let ?V = "{NTup [NInt a, NInt b] | a b. 0 \<le> a \<and> a \<le> m - 1 \<and> 0 \<le> b \<and> b \<le> n - 1}"
  show l: "set (nodes (grid_lattice m n)) = ?V"
    unfolding grid_lattice_def set_nodes_add_edges_from set_grid_row_edges set_grid_column_edges
      set_nodes_add_nodes_from set_grid_nodes
    by (auto simp: image_iff)
  have "NTup [NInt 0, NInt b] \<in> ?V" "NTup [NInt (m - 1), NInt b] \<in> ?V"
    if "0 \<le> b" "b \<le> n - 1" for b using that assms by auto
  moreover have "NTup [NInt a, NInt 0] \<in> ?V" "NTup [NInt a, NInt (n - 1)] \<in> ?V"
    if "0 \<le> a" "a \<le> m - 1" for a using that assms by auto
  ultimately show "set (nodes (grid_wrapped m n)) = ?V"
    unfolding grid_wrapped_def by (auto simp: l image_iff)
  show "distinct (nodes (grid_lattice m n))" by (simp add: grid_lattice_def)
  show "distinct (nodes (grid_wrapped m n))" by (simp add: grid_wrapped_def grid_lattice_def)
qed

lemma card_grid_cells:
  assumes "1 \<le> m" "1 \<le> n"
  shows "int (card {NTup [NInt a, NInt b] | a b. 0 \<le> a \<and> a \<le> m - 1 \<and> 0 \<le> b \<and> b \<le> n - 1})
           = m * n"
proof -
  have "{NTup [NInt a, NInt b] | a b. 0 \<le> a \<and> a \<le> m - 1 \<and> 0 \<le> b \<and> b \<le> n - 1}
        = (\<lambda>p. NTup [NInt (fst p), NInt (snd p)]) ` ({0..m - 1} \<times> {0..n - 1})"
    by (auto simp: image_iff)
  moreover have "card ((\<lambda>p. NTup [NInt (fst p), NInt (snd p)]) ` ({0..m - 1} \<times> {0..n - 1}))
        = card ({0..m - 1} \<times> {0..n - 1})"
    by (rule card_image) (auto simp: inj_on_def)
  ultimately show ?thesis using assms by (simp add: card_cartesian_product)
qed


lemma lattice_out:
  assumes "0 \<le> a" "a \<le> m - 1" "0 \<le> b" "b \<le> n - 1"
  shows "{w. (NTup [NInt a, NInt b], w) \<in> lattice_edges m n} =
           (if 1 \<le> a then {NTup [NInt (a - 1), NInt b]} else {}) \<union>
           (if 1 \<le> b then {NTup [NInt a, NInt (b - 1)]} else {})"
proof -
  have "(NTup [NInt a, NInt b], w) \<in> lattice_edges m n \<longleftrightarrow>
          (1 \<le> a \<and> w = NTup [NInt (a - 1), NInt b]) \<or> (1 \<le> b \<and> w = NTup [NInt a, NInt (b - 1)])"
    for w
    using assms by (auto simp: lattice_edges_def)
  then show ?thesis by auto
qed

lemma lattice_in:
  assumes "0 \<le> a" "a \<le> m - 1" "0 \<le> b" "b \<le> n - 1"
  shows "{w. (w, NTup [NInt a, NInt b]) \<in> lattice_edges m n} =
           (if a \<le> m - 2 then {NTup [NInt (a + 1), NInt b]} else {}) \<union>
           (if b \<le> n - 2 then {NTup [NInt a, NInt (b + 1)]} else {})"
proof -
  have "(w, NTup [NInt a, NInt b]) \<in> lattice_edges m n \<longleftrightarrow>
          (a \<le> m - 2 \<and> w = NTup [NInt (a + 1), NInt b]) \<or>
          (b \<le> n - 2 \<and> w = NTup [NInt a, NInt (b + 1)])"
    for w
    using assms by (auto simp: lattice_edges_def)
  then show ?thesis by auto
qed

lemma wrap_out:
  assumes "0 \<le> a" "a \<le> m - 1" "0 \<le> b" "b \<le> n - 1"
  shows "{w. (NTup [NInt a, NInt b], w) \<in> wrap_edges m n} =
           (if b = 0 then {NTup [NInt a, NInt (n - 1)]} else {}) \<union>
           (if a = 0 then {NTup [NInt (m - 1), NInt b]} else {})"
proof -
  have "(NTup [NInt a, NInt b], w) \<in> wrap_edges m n \<longleftrightarrow>
          (b = 0 \<and> w = NTup [NInt a, NInt (n - 1)]) \<or> (a = 0 \<and> w = NTup [NInt (m - 1), NInt b])"
    for w
    using assms by (auto simp: wrap_edges_def)
  then show ?thesis by auto
qed

lemma wrap_in:
  assumes "0 \<le> a" "a \<le> m - 1" "0 \<le> b" "b \<le> n - 1"
  shows "{w. (w, NTup [NInt a, NInt b]) \<in> wrap_edges m n} =
           (if b = n - 1 then {NTup [NInt a, NInt 0]} else {}) \<union>
           (if a = m - 1 then {NTup [NInt 0, NInt b]} else {})"
proof -
  have "(w, NTup [NInt a, NInt b]) \<in> wrap_edges m n \<longleftrightarrow>
          (b = n - 1 \<and> w = NTup [NInt a, NInt 0]) \<or> (a = m - 1 \<and> w = NTup [NInt 0, NInt b])"
    for w
    using assms by (auto simp: wrap_edges_def)
  then show ?thesis by auto
qed

lemma grid_lattice_degree:
  assumes "0 \<le> a" "a \<le> m - 1" "0 \<le> b" "b \<le> n - 1"
  shows "degree (grid_lattice m n) (NTup [NInt a, NInt b]) =
           (if 1 \<le> a then 1 else 0) + (if a \<le> m - 2 then 1 else 0) +
           (if 1 \<le> b then 1 else 0) + (if b \<le> n - 2 then 1 else 0)"
proof -
  have o: "card {w. (NTup [NInt a, NInt b], w) \<in> lattice_edges m n} =
             (if 1 \<le> a then 1 else 0) + (if 1 \<le> b then 1 else 0)"
    unfolding lattice_out [OF assms] by auto
  have i: "card {w. (w, NTup [NInt a, NInt b]) \<in> lattice_edges m n} =
             (if a \<le> m - 2 then 1 else 0) + (if b \<le> n - 2 then 1 else 0)"
    unfolding lattice_in [OF assms] by auto
  show ?thesis
    unfolding degree_neighbours [OF grid_lattice_edges(2)] grid_lattice_edges(1) o i by simp
qed

lemma grid_wrapped_degree:
  assumes "2 < m" "2 < n" "0 \<le> a" "a \<le> m - 1" "0 \<le> b" "b \<le> n - 1"
  shows "degree (grid_wrapped m n) (NTup [NInt a, NInt b]) = 4"
proof -
  note r = assms(3-6)
  have "{w. (NTup [NInt a, NInt b], w) \<in> lattice_edges m n \<union> wrap_edges m n} =
        {w. (NTup [NInt a, NInt b], w) \<in> lattice_edges m n} \<union>
        {w. (NTup [NInt a, NInt b], w) \<in> wrap_edges m n}" by auto
  then have o: "card {w. (NTup [NInt a, NInt b], w) \<in> lattice_edges m n \<union> wrap_edges m n} = 2"
    unfolding lattice_out [OF r] wrap_out [OF r] using assms by auto
  have "{w. (w, NTup [NInt a, NInt b]) \<in> lattice_edges m n \<union> wrap_edges m n} =
        {w. (w, NTup [NInt a, NInt b]) \<in> lattice_edges m n} \<union>
        {w. (w, NTup [NInt a, NInt b]) \<in> wrap_edges m n}" by auto
  then have i: "card {w. (w, NTup [NInt a, NInt b]) \<in> lattice_edges m n \<union> wrap_edges m n} = 2"
    unfolding lattice_in [OF r] wrap_in [OF r] using assms by auto
  show ?thesis
    unfolding degree_neighbours [OF grid_wrapped_edges(2) [OF assms(1,2)]]
      grid_wrapped_edges(1) [OF assms(1,2)] o i by simp
qed

text \<open>
  Claim C6, as the code has it. For all integers \<open>m \<ge> 1\<close> and \<open>n \<ge> 1\<close>, \<open>grid_2d_graph(m, n)\<close>
  has \<open>m*n\<close> nodes, periodic or not. Its edges without \<open>periodic\<close> are those of the
  4-neighbour lattice, each once; node \<open>(a, b)\<close> has one neighbour for each of \<open>a-1\<close>, \<open>a+1\<close>,
  \<open>b-1\<close>, \<open>b+1\<close> that is in range, so for \<open>m \<ge> 2\<close> and \<open>n \<ge> 2\<close> corner nodes have degree 2,
  the other boundary nodes degree 3 and interior nodes degree 4. With \<open>periodic=True\<close> the
  edges are the lattice edges and, for a dimension of length greater than 2 and for no other,
  the edges joining its first and last coordinate; with \<open>m > 2\<close> and \<open>n > 2\<close> every node then
  has degree 4. (For \<open>m = 1\<close> the claim's degrees fail: \<open>grid_2d_graph(1, 3)\<close> is a path whose
  corner \<open>(0, 0)\<close> has degree 1.)
\<close>

theorem grid_2d_graph_degrees:
  "1 \<le> m \<Longrightarrow> 1 \<le> n \<Longrightarrow>
   \<exists>g gp. returns (returning (grid_2d_graph (Count m) (Count n) False None h)) g \<and>
          returns (returning (grid_2d_graph (Count m) (Count n) True None h)) gp \<and>
          int (number_of_nodes g) = m * n \<and> int (number_of_nodes gp) = m * n \<and>
          distinct (edges g) \<and> distinct (edges gp) \<and>
          set (edges g) =
            {(NTup [NInt (a + 1), NInt b], NTup [NInt a, NInt b]) | a b.
               0 \<le> a \<and> a \<le> m - 2 \<and> 0 \<le> b \<and> b \<le> n - 1} \<union>
            {(NTup [NInt a, NInt (b + 1)], NTup [NInt a, NInt b]) | a b.
               0 \<le> a \<and> a \<le> m - 1 \<and> 0 \<le> b \<and> b \<le> n - 2} \<and>
          set (edges gp) =
            set (edges g) \<union>
            (if 2 < n
             then {(NTup [NInt a, NInt 0], NTup [NInt a, NInt (n - 1)]) | a. 0 \<le> a \<and> a \<le> m - 1}
             else {}) \<union>
            (if 2 < m
             then {(NTup [NInt 0, NInt b], NTup [NInt (m - 1), NInt b]) | b. 0 \<le> b \<and> b \<le> n - 1}
             else {}) \<and>
          (\<forall>a b. 0 \<le> a \<and> a < m \<and> 0 \<le> b \<and> b < n \<longrightarrow>
             degree g (NTup [NInt a, NInt b]) =
               (if 1 \<le> a then 1 else 0) + (if a \<le> m - 2 then 1 else 0) +
               (if 1 \<le> b then 1 else 0) + (if b \<le> n - 2 then 1 else 0)) \<and>
          (2 \<le> m \<and> 2 \<le> n \<longrightarrow>
             (\<forall>a b. 0 \<le> a \<and> a < m \<and> 0 \<le> b \<and> b < n \<longrightarrow>
                degree g (NTup [NInt a, NInt b]) =
                  (if (a = 0 \<or> a = m - 1) \<and> (b = 0 \<or> b = n - 1) then 2
                   else if a = 0 \<or> a = m - 1 \<or> b = 0 \<or> b = n - 1 then 3 else 4))) \<and>
          (2 < m \<and> 2 < n \<longrightarrow>
             (\<forall>a b. 0 \<le> a \<and> a < m \<and> 0 \<le> b \<and> b < n \<longrightarrow>
                degree gp (NTup [NInt a, NInt b]) = 4))"
proof -
  assume mn: "1 \<le> m" "1 \<le> n"
  have nn: "int (number_of_nodes (grid_lattice m n)) = m * n"
           "int (number_of_nodes (grid_wrapped m n)) = m * n"
    using grid_nodes_set [OF mn] card_grid_cells [OF mn]
    by (simp_all add: number_of_nodes_def distinct_card [symmetric])
  show ?thesis
  proof (intro exI conjI allI impI)
    show "returns (returning (grid_2d_graph (Count m) (Count n) False None h)) (grid_lattice m n)"
      by (simp add: grid_2d_graph_lattice returning_def)
    show "returns (returning (grid_2d_graph (Count m) (Count n) True None h)) (grid_wrapped m n)"
      by (simp add: grid_2d_graph_wrapped returning_def)
    show "int (number_of_nodes (grid_lattice m n)) = m * n" by (rule nn(1))
    show "int (number_of_nodes (grid_wrapped m n)) = m * n" by (rule nn(2))
    show "distinct (edges (grid_lattice m n))" by (rule grid_lattice_edges(2))
    show "distinct (edges (grid_wrapped m n))" by (rule grid_wrapped_edges_any(2))
    show "set (edges (grid_lattice m n)) =
            {(NTup [NInt (a + 1), NInt b], NTup [NInt a, NInt b]) | a b.
               0 \<le> a \<and> a \<le> m - 2 \<and> 0 \<le> b \<and> b \<le> n - 1} \<union>
            {(NTup [NInt a, NInt (b + 1)], NTup [NInt a, NInt b]) | a b.
               0 \<le> a \<and> a \<le> m - 1 \<and> 0 \<le> b \<and> b \<le> n - 2}"
      unfolding grid_lattice_edges(1) lattice_edges_def ..
    show "set (edges (grid_wrapped m n)) =
            set (edges (grid_lattice m n)) \<union>
            (if 2 < n
             then {(NTup [NInt a, NInt 0], NTup [NInt a, NInt (n - 1)]) | a. 0 \<le> a \<and> a \<le> m - 1}
             else {}) \<union>
            (if 2 < m
             then {(NTup [NInt 0, NInt b], NTup [NInt (m - 1), NInt b]) | b. 0 \<le> b \<and> b \<le> n - 1}
             else {})"
      unfolding grid_wrapped_edges_any(1) grid_lattice_edges(1) column_wrap_edges_def
        row_wrap_edges_def ..
  next
    fix a b assume "0 \<le> a \<and> a < m \<and> 0 \<le> b \<and> b < n"
    then show "degree (grid_lattice m n) (NTup [NInt a, NInt b]) =
               (if 1 \<le> a then 1 else 0) + (if a \<le> m - 2 then 1 else 0) +
               (if 1 \<le> b then 1 else 0) + (if b \<le> n - 2 then 1 else 0)"
      by (intro grid_lattice_degree) simp_all
  next
    fix a b assume "2 \<le> m \<and> 2 \<le> n" and r: "0 \<le> a \<and> a < m \<and> 0 \<le> b \<and> b < n"
    then have "degree (grid_lattice m n) (NTup [NInt a, NInt b]) =
               (if 1 \<le> a then 1 else 0) + (if a \<le> m - 2 then 1 else 0) +
               (if 1 \<le> b then 1 else 0) + (if b \<le> n - 2 then 1 else 0)"
      by (intro grid_lattice_degree) simp_all
    with \<open>2 \<le> m \<and> 2 \<le> n\<close> r
    show "degree (grid_lattice m n) (NTup [NInt a, NInt b]) =
                  (if (a = 0 \<or> a = m - 1) \<and> (b = 0 \<or> b = n - 1) then 2
                   else if a = 0 \<or> a = m - 1 \<or> b = 0 \<or> b = n - 1 then 3 else 4)"
      by auto
  next
    fix a b assume "2 < m \<and> 2 < n" "0 \<le> a \<and> a < m \<and> 0 \<le> b \<and> b < n"
    then show "degree (grid_wrapped m n) (NTup [NInt a, NInt b]) = 4"
      by (intro grid_wrapped_degree) simp_all
  qed
qed

theorem grid_2d_graph_degrees_witness:
  "\<exists>g gp. returns (returning (grid_2d_graph (Count 3) (Count 4) False None [])) g \<and>
          returns (returning (grid_2d_graph (Count 3) (Count 4) True None [])) gp \<and>
          number_of_nodes g = 12 \<and>
          degree g (NTup [NInt 0, NInt 0]) = 2 \<and>
          degree g (NTup [NInt 0, NInt 1]) = 3 \<and>
          degree g (NTup [NInt 1, NInt 1]) = 4 \<and>
          degree gp (NTup [NInt 0, NInt 0]) = 4"
proof -
  obtain g gp where
    r: "returns (returning (grid_2d_graph (Count 3) (Count 4) False None [])) g"
       "returns (returning (grid_2d_graph (Count 3) (Count 4) True None [])) gp"
    and n: "int (number_of_nodes g) = 3 * 4"
    and d: "\<forall>a b. 0 \<le> a \<and> a < 3 \<and> 0 \<le> b \<and> b < 4 \<longrightarrow>
             degree g (NTup [NInt a, NInt b]) =
               (if 1 \<le> a then 1 else 0) + (if a \<le> 3 - 2 then 1 else 0) +
               (if 1 \<le> b then 1 else 0) + (if b \<le> 4 - 2 then 1 else 0)"
    and p: "(2::int) < 3 \<and> (2::int) < 4 \<longrightarrow>
             (\<forall>a b. 0 \<le> a \<and> a < 3 \<and> 0 \<le> b \<and> b < 4 \<longrightarrow>
                degree gp (NTup [NInt a, NInt b]) = 4)"
    using grid_2d_graph_degrees [of 3 4 "[]"] by auto
  from d have "degree g (NTup [NInt 0, NInt 0]) = 2" "degree g (NTup [NInt 0, NInt 1]) = 3"
    "degree g (NTup [NInt 1, NInt 1]) = 4" by simp_all
  moreover from p have "degree gp (NTup [NInt 0, NInt 0]) = 4" by simp
  moreover from n have "number_of_nodes g = 12" by simp
  ultimately show ?thesis using r by blast
qed

theorem grid_2d_graph_1_by_3_corner:
  "\<exists>g. returns (returning (grid_2d_graph (Count 1) (Count 3) False None [])) g \<and>
       degree g (NTup [NInt 0, NInt 0]) = 1 \<and> degree g (NTup [NInt 0, NInt 1]) = 2"
  by (rule exI [of _ "snd (grid_2d_graph (Count 1) (Count 3) False None []) ! 0"]) code_simp


subsection \<open>Every generator and the store\<close>

lemma fills_Inl [simp]: "fills cu h (Inl e, h') l"
  by (simp add: fills_def)

lemma place_inject: "valid_cu cu h \<Longrightarrow> place cu h g = place cu h g' \<Longrightarrow> g = g'"
  by (metis place_nth_target)

lemma fills_place [simp]:
  "valid_cu cu h \<Longrightarrow>
   fills cu h (Inr (target cu h), place cu h g) l =
     (is_directed g = is_directed (base cu h) \<and> is_multigraph g = is_multigraph (base cu h) \<and>
      name g = l)"
  by (auto simp: fills_def dest: place_inject)

lemma fills_returning [simp]:
  "valid_cu cu h \<Longrightarrow>
   fills cu h (returning (target cu h, place cu h g)) l =
     (is_directed g = is_directed (base cu h) \<and> is_multigraph g = is_multigraph (base cu h) \<and>
      name g = l)"
  by (simp add: returning_def)

lemma foldl_keeps:
  "(\<And>g x. sel (F g x) = sel g) \<Longrightarrow> sel (foldl F g xs) = sel g"
  by (induction xs arbitrary: g) simp_all

lemma empty_graph_fills:
  "valid_cu cu h \<Longrightarrow>
   fills cu h (returning (empty_graph n cu h)) (''empty_graph('' @ str_spec n @ '')'')"
  by (simp add: empty_graph_place)

lemma complete_graph_fills:
  "valid_cu cu h \<Longrightarrow>
   fills cu h (returning (complete_graph n cu h)) (''complete_graph('' @ str_spec n @ '')'')"
  by (simp add: complete_graph_place)

lemma circulant_graph_fills:
  "valid_cu cu h \<Longrightarrow>
   fills cu h (returning (circulant_graph n offsets cu h))
     (''circulant_graph('' @ str_int n @ '', ['' @ join_comma (map str_int offsets) @ ''])'')"
  by (simp add: circulant_graph_place foldl_keeps)

lemma cycle_graph_fills:
  "valid_cu cu h \<Longrightarrow>
   fills cu h (cycle_graph n cu h) (''cycle_graph('' @ str_spec n @ '')'')"
  by (cases "snd (nodes_or_number n) = []")
     (simp_all add: cycle_graph_place, simp add: cycle_graph_def Let_def nodes_or_number_def
        split: prod.splits)

lemma path_graph_fills:
  "valid_cu cu h \<Longrightarrow>
   fills cu h (returning (path_graph n cu h)) (''path_graph('' @ str_spec n @ '')'')"
  by (simp add: path_graph_def empty_graph_place Let_def nodes_or_number_def)

lemma null_graph_fills:
  "valid_cu cu h \<Longrightarrow> fills cu h (returning (null_graph cu h)) ''null_graph()''"
  by (simp add: null_graph_def empty_graph_place)

lemma trivial_graph_fills:
  "valid_cu cu h \<Longrightarrow> fills cu h (returning (trivial_graph cu h)) ''trivial_graph()''"
  by (simp add: trivial_graph_def empty_graph_place)

lemma star_graph_fills:
  "valid_cu cu h \<Longrightarrow> fills cu h (star_graph n cu h) (''star_graph('' @ str_spec n @ '')'')"
  by (simp add: star_graph_place Let_def)

lemma ladder_graph_fills:
  "valid_cu cu h \<Longrightarrow> fills cu h (ladder_graph n cu h) (''ladder_graph_('' @ str_int n @ '')'')"
  by (simp add: ladder_graph_def empty_graph_place Let_def)


lemma fills_cases:
  assumes "fills cu h res l"
  obtains e h' where "res = (Inl e, h')"
  | g where "res = (Inr (target cu h), place cu h g)"
      "is_directed g = is_directed (base cu h)" "is_multigraph g = is_multigraph (base cu h)"
      "name g = l"
proof (cases res)
  case (Pair a h')
  show ?thesis
  proof (cases a)
    case (Inl e)
    then show ?thesis using Pair that(1) by blast
  next
    case (Inr G)
    then show ?thesis using Pair assms that(2) by (auto simp: fills_def)
  qed
qed

lemma circular_ladder_graph_fills:
  assumes "valid_cu cu h"
  shows "fills cu h (circular_ladder_graph n cu h) (''circular_ladder_graph('' @ str_int n @ '')'')"
  using ladder_graph_fills [OF assms, of n]
proof (cases rule: fills_cases)
  case (1 e h')
  then show ?thesis by (simp add: circular_ladder_graph_def)
next
  case (2 g)
  then show ?thesis using assms by (simp add: circular_ladder_graph_def Let_def)
qed

lemma str_int_0: "str_int 0 = ''0''"
  by code_simp

lemma wheel_graph_fills:
  assumes "valid_cu cu h"
  shows "fills cu h (wheel_graph n cu h) (''wheel_graph('' @ str_spec n @ '')'')"
proof (cases "n = Count 0")
  case True
  then show ?thesis
    using assms
    by (simp add: wheel_graph_def nodes_or_number_def empty_graph_place Let_def str_int_0)
next
  case False
  show ?thesis
    using star_graph_fills [OF assms, of "resolved n (snd (nodes_or_number n))"]
  proof (cases rule: fills_cases)
    case (1 e h')
    then show ?thesis using False by (simp add: wheel_graph_def nodes_or_number_def Let_def)
  next
    case (2 g)
    then show ?thesis
      using False assms by (simp add: wheel_graph_def nodes_or_number_def Let_def)
  qed
qed

lemma is_directed_cu:
  "(cu \<noteq> None \<and> is_directed (h ! the cu)) = is_directed (base cu h)"
  by (cases cu) (simp_all add: base_def)

lemma is_multigraph_cu:
  "(cu \<noteq> None \<and> is_multigraph (h ! the cu)) = is_multigraph (base cu h)"
  by (cases cu) (simp_all add: base_def)

lemma barbell_graph_fills:
  "valid_cu cu h \<Longrightarrow>
   fills cu h (barbell_graph m1 m2 cu h)
     (''barbell_graph('' @ str_int m1 @ '','' @ str_int m2 @ '')'')"
  by (simp add: barbell_graph_def is_directed_cu complete_graph_place Let_def)

lemma lollipop_graph_fills:
  "valid_cu cu h \<Longrightarrow>
   fills cu h (lollipop_graph m n cu h)
     (''lollipop_graph('' @ str_spec m @ '', '' @ str_spec n @ '')'')"
  by (simp add: lollipop_graph_def is_directed_cu complete_graph_place Let_def
        nodes_or_number_def split: sum.splits)

lemma full_rary_tree_fills:
  "valid_cu cu h \<Longrightarrow>
   fills cu h (full_rary_tree r n cu h) (''empty_graph('' @ str_int n @ '')'')"
  by (simp add: full_rary_tree_def empty_graph_place split: sum.splits)

lemma balanced_tree_fills:
  "valid_cu cu h \<Longrightarrow>
   fills cu h (balanced_tree r ht cu h)
     (''empty_graph('' @
        str_int (if r = 1 then ht + 1 else (1 - r ^ nat (ht + 1)) div (1 - r)) @ '')'')"
  using full_rary_tree_fills [of cu h r "ht + 1"]
    full_rary_tree_fills [of cu h r "(1 - r ^ nat (ht + 1)) div (1 - r)"]
  by (auto simp: balanced_tree_def)

lemma grid_2d_graph_fills:
  "valid_cu cu h \<Longrightarrow>
   fills cu h (returning (grid_2d_graph m n periodic cu h))
     (if periodic
      then ''periodic_grid_2d_graph('' @ str_resolved (nodes_or_number m) @ '','' @
           str_resolved (nodes_or_number n) @ '')''
      else ''grid_2d_graph('' @ str_spec m @ '', '' @ str_spec n @ '')'')"
  by (simp add: grid_2d_graph_def empty_graph_place Let_def nodes_or_number_def)


lemma dgm_edges_loop_place:
  "valid_cu cu h \<Longrightarrow>
   \<exists>g'. snd (dgm_edges_loop (target cu h) es nn (place cu h g)) = place cu h g' \<and>
        is_directed g' = is_directed g \<and> is_multigraph g' = is_multigraph g \<and>
        name g' = name g"
proof (induction es arbitrary: nn g)
  case Nil
  then show ?case by auto
next
  case (Cons e es)
  from Cons.IH [OF Cons.prems, of "nn + 1"
      "add_edge (NInt nn) (snd e) (add_edge (NInt nn) (fst e) g)"]
  show ?case using Cons.prems by (simp add: Let_def)
qed

lemma dgm_generations_place:
  "valid_cu cu h \<Longrightarrow>
   \<exists>g'. dgm_generations (target cu h) k nn (place cu h g) = place cu h g' \<and>
        is_directed g' = is_directed g \<and> is_multigraph g' = is_multigraph g \<and>
        name g' = name g"
proof (induction k arbitrary: nn g)
  case 0
  then show ?case by auto
next
  case (Suc k)
  obtain g1 where g1:
    "snd (dgm_edges_loop (target cu h) (edges_view g) nn (place cu h g)) = place cu h g1"
    "is_directed g1 = is_directed g" "is_multigraph g1 = is_multigraph g" "name g1 = name g"
    using dgm_edges_loop_place [OF Suc.prems] by blast
  from Suc.IH [OF Suc.prems, of "fst (dgm_edges_loop (target cu h) (edges_view g) nn (place cu h g))" g1]
  show ?case using Suc.prems g1 by (simp add: Let_def case_prod_beta)
qed

lemma dorogovtsev_goltsev_mendes_graph_fills:
  assumes "valid_cu cu h"
  shows "fills cu h (dorogovtsev_goltsev_mendes_graph n cu h) ''Dorogovtsev-Goltsev-Mendes Graph''"
proof -
  define g where "g = add_edge (NInt 0) (NInt 1)
        (set_name ''Dorogovtsev-Goltsev-Mendes Graph''
           (add_nodes_from [] (set_name (''empty_graph('' @ str_int 0 @ '')'') (base cu h))))"
  obtain g' where g': "dgm_generations (target cu h) (nat n) 2 (place cu h g) = place cu h g'"
     "is_directed g' = is_directed g" "is_multigraph g' = is_multigraph g" "name g' = name g"
    using dgm_generations_place [OF assms] by blast
  have gs: "is_directed g = is_directed (base cu h)" "is_multigraph g = is_multigraph (base cu h)"
     "name g = ''Dorogovtsev-Goltsev-Mendes Graph''"
    by (simp_all add: g_def)
  have e: "empty_graph (Count 0) cu h =
        (target cu h, place cu h (add_nodes_from [] (set_name (''empty_graph('' @ str_int 0 @ '')'') (base cu h))))"
    using assms by (simp add: empty_graph_place nodes_or_number_def)
  have m: "mutate (target cu h) (add_edge (NInt 0) (NInt 1))
            (mutate (target cu h) (set_name ''Dorogovtsev-Goltsev-Mendes Graph'')
               (place cu h (add_nodes_from [] (set_name (''empty_graph('' @ str_int 0 @ '')'') (base cu h)))))
           = place cu h g"
    using assms by (simp add: g_def)
  show ?thesis
    unfolding dorogovtsev_goltsev_mendes_graph_def is_directed_cu is_multigraph_cu e Let_def
      prod.case m g'(1)
    using assms g' gs by (simp del: add_nodes_from_Nil)
qed


lemma fresh_Inl [simp]: "fresh h (Inl e, h') l"
  by (simp add: fresh_def)

lemma fills_None_fresh: "fills None h res l \<Longrightarrow> fresh h res l"
  by (erule fills_cases) (simp_all add: fresh_def target_def place_def)

lemma add_blocks_place_any:
  "valid_cu cu h \<Longrightarrow>
   \<exists>r g'. add_blocks (target cu h) i bs (place cu h g) = (r, place cu h g') \<and>
          is_directed g' = is_directed g \<and> is_multigraph g' = is_multigraph g \<and>
          name g' = name g"
proof (induction bs arbitrary: i g)
  case Nil
  then show ?case by auto
next
  case (Cons b bs)
  show ?case
  proof (cases b)
    case (Count k)
    then show ?thesis by auto
  next
    case (Nodes vs)
    from Cons.IH [OF Cons.prems, of "i + 1" "add_nodes_from_block vs i g"]
    show ?thesis using Cons.prems Nodes by simp
  next
    case (NodesT vs)
    from Cons.IH [OF Cons.prems, of "i + 1" "add_nodes_from_block vs i g"]
    show ?thesis using Cons.prems NodesT by simp
  qed
qed

lemma complete_multipartite_graph_fills:
  "fills None h (complete_multipartite_graph block_sizes h)
     (''complete_multiparite_graph'' @ repr_tuple (map str_spec block_sizes))"
proof -
  define g0 where "g0 = set_name (''complete_multiparite_graph'' @ repr_tuple (map str_spec block_sizes)) Graph"
  have new: "new_Graph h = (target None h, place None h Graph)"
    by (simp add: new_Graph_def target_def place_def)
  obtain r g1 where g1:
    "add_blocks (target None h) 0 (blocks_of block_sizes) (place None h g0) = (r, place None h g1)"
    "is_directed g1 = is_directed g0" "is_multigraph g1 = is_multigraph g0" "name g1 = name g0"
    using add_blocks_place_any [OF valid_cu_None] by blast
  have fold: "foldl (\<lambda>h' (block1, block2).
            mutate (target None h) (add_edges_from (product2 (block_nodes block1) (block_nodes block2))) h')
          (place None h g) bs
        = place None h (foldl (\<lambda>g p. add_edges_from (product2 (block_nodes (fst p)) (block_nodes (snd p))) g) g bs)"
    for g bs
    using foldl_mutate_place [of None h "\<lambda>p. add_edges_from (product2 (block_nodes (fst p)) (block_nodes (snd p)))" g bs]
    by (simp add: case_prod_unfold)
  have m: "mutate (target None h) (set_name (''complete_multiparite_graph'' @ repr_tuple (map str_spec block_sizes)))
             (place None h Graph) = place None h g0"
    by (simp add: g0_def)
  show ?thesis
    unfolding complete_multipartite_graph_def new prod.case Let_def m g1(1) fold
    using g1 by (cases r) (simp_all add: g0_def foldl_keeps)
qed

lemma turan_graph_fills:
  "fills None h (turan_graph n r h) (''turan_graph('' @ str_int n @ '','' @ str_int r @ '')'')"
  using complete_multipartite_graph_fills [of h "map Count (partitions n r)"]
proof (cases rule: fills_cases)
  case (1 e h')
  then show ?thesis by (simp add: turan_graph_def)
next
  case (2 g)
  then show ?thesis by (simp add: turan_graph_def)
qed


lemma grid_func_simple:
  assumes "grid_func periodic d h = (Inr G, h')"
  shows "\<exists>g. G = length h \<and> h' = h @ [g] \<and> \<not> is_directed g \<and> \<not> is_multigraph g"
proof (cases periodic)
  case True
  with assms have c: "cycle_graph d None h = (Inr G, h')" by (simp add: grid_func_def)
  from cycle_graph_fills [OF valid_cu_None, of h d] show ?thesis
    by (cases rule: fills_cases) (use c in \<open>auto simp: target_def place_def\<close>)
next
  case False
  with assms have p: "returning (path_graph d None h) = (Inr G, h')"
    by (simp add: grid_func_def returning_def case_prod_beta)
  from path_graph_fills [OF valid_cu_None, of h d] show ?thesis
    by (cases rule: fills_cases) (use p in \<open>auto simp: target_def place_def\<close>)
qed

lemma add_edges_from_flags_literal [simp]:
  "is_directed (add_edges_from es \<lparr>is_directed = d, is_multigraph = m, name = s, nodes = vs,
      block = b, edges = e\<rparr>) = d"
  "is_multigraph (add_edges_from es \<lparr>is_directed = d, is_multigraph = m, name = s, nodes = vs,
      block = b, edges = e\<rparr>) = m"
  by simp_all

lemma cartesian_product_simple:
  "\<exists>GH. cartesian_product Gr Hr h = (length h, h @ [GH]) \<and>
        is_directed GH = is_directed (h ! Gr) \<and>
        is_multigraph GH = (is_multigraph (h ! Gr) \<or> is_multigraph (h ! Hr))"
  by (simp add: cartesian_product_def Let_def)

lemma relabel_nodes_simple:
  "\<exists>H. relabel_nodes Gr f h = (length h, h @ [H]) \<and>
       is_directed H = is_directed (h ! Gr) \<and> is_multigraph H = is_multigraph (h ! Gr)"
  by (simp add: relabel_nodes_def Let_def)

lemma grid_loop_simple:
  "simple_at h G \<Longrightarrow> k \<le> G \<Longrightarrow> grid_loop periodic ds G h = (Inr G', h') \<Longrightarrow>
   simple_at h' G' \<and> k \<le> G' \<and> length h \<le> length h' \<and> take (length h) h' = h"
proof (induction ds arbitrary: G h)
  case Nil
  then show ?case by simp
next
  case (Cons d ds)
  define h1 where "h1 = h @ [h ! G]"
  have c: "copy G h = (length h, h1)" by (simp add: copy_def h1_def)
  from Cons.prems(3) obtain Gnew h2 where f: "grid_func periodic d h1 = (Inr Gnew, h2)"
    by (auto simp: c split: prod.splits sum.splits)
  from grid_func_simple [OF f] obtain gn where gn:
    "Gnew = length h1" "h2 = h1 @ [gn]" "\<not> is_directed gn" "\<not> is_multigraph gn" by blast
  obtain GH where GH: "cartesian_product Gnew (length h) h2 = (length h2, h2 @ [GH])"
     "is_directed GH = is_directed (h2 ! Gnew)"
     "is_multigraph GH = (is_multigraph (h2 ! Gnew) \<or> is_multigraph (h2 ! length h))"
    using cartesian_product_simple by blast
  have rec: "grid_loop periodic ds (length h2) (h2 @ [GH]) = (Inr G', h')"
    using Cons.prems(3) by (simp add: c f GH(1))
  have old: "h2 ! length h = h ! G" by (simp add: gn(2) h1_def nth_append)
  have new: "h2 ! Gnew = gn" by (simp add: gn(1,2))
  have s: "simple_at (h2 @ [GH]) (length h2)"
    using Cons.prems(1) gn(3,4) by (simp add: simple_at_def GH(2,3) old new)
  have k: "k \<le> length h2" using Cons.prems(1,2) by (simp add: gn(2) h1_def simple_at_def)
  from Cons.IH [OF s k rec]
  have r: "simple_at h' G'" "k \<le> G'" "length (h2 @ [GH]) \<le> length h'"
       "take (length (h2 @ [GH])) h' = h2 @ [GH]" by simp_all
  have "take (length h) h' = take (length h) (take (length (h2 @ [GH])) h')"
    by (simp add: gn(2) h1_def min_def)
  also have "\<dots> = h" unfolding r(4) by (simp add: gn(2) h1_def)
  finally have "take (length h) h' = h" .
  with r show ?case by (simp add: gn(2) h1_def)
qed

lemma mutate_nth_same: "G < length h \<Longrightarrow> mutate G f h ! G = f (h ! G)"
  by (simp add: mutate_list_update)

lemma take_mutate: "n \<le> G \<Longrightarrow> take n (mutate G f h) = take n h"
  by (cases "G < length h") (simp_all add: mutate_list_update mutate_out_of_range)

lemma grid_graph_fresh:
  "fresh h (grid_graph dim periodic h) (''grid_graph('' @ repr_list (map str_spec dim) @ '')'')"
proof (cases "rev dim")
  case Nil
  then show ?thesis
    by (simp add: grid_graph_def empty_graph_place Let_def fresh_def target_def place_def
          mutate_list_update)
next
  case (Cons d ds)
  show ?thesis
  proof (cases "grid_func periodic d h")
    case (Pair a h1)
    show ?thesis
    proof (cases a)
      case (Inl e)
      then show ?thesis using Cons Pair by (simp add: grid_graph_def)
    next
      case (Inr G)
      with Pair have f: "grid_func periodic d h = (Inr G, h1)" by simp
      from grid_func_simple [OF f] obtain g where g:
        "G = length h" "h1 = h @ [g]" "\<not> is_directed g" "\<not> is_multigraph g" by blast
      have s: "simple_at h1 G" by (simp add: simple_at_def g)
      show ?thesis
      proof (cases "grid_loop periodic ds G h1")
        case (Pair b h2)
        show ?thesis
        proof (cases b)
          case (Inl e)
          then show ?thesis using Cons f Pair by (simp add: grid_graph_def)
        next
          case (Inr G')
          with Pair have l: "grid_loop periodic ds G h1 = (Inr G', h2)" by simp
          from grid_loop_simple [OF s _ l, of G]
          have r: "simple_at h2 G'" "length h1 \<le> length h2" "take (length h1) h2 = h1" by simp_all
          obtain H where H: "relabel_nodes G' flatten h2 = (length h2, h2 @ [H])"
            "is_directed H = is_directed (h2 ! G')" "is_multigraph H = is_multigraph (h2 ! G')"
            using relabel_nodes_simple by blast
          have "take (length h) h2 = take (length h) (take (length h1) h2)"
            by (simp add: g(2) min_def)
          also have "\<dots> = h" unfolding r(3) by (simp add: g(2))
          finally have t: "take (length h) h2 = h" .
          have len: "length h \<le> length h2" using r(2) by (simp add: g(2))
          show ?thesis
            using r(1) len t
            by (simp add: grid_graph_def Cons f l H fresh_def mutate_list_update simple_at_def)
        qed
      qed
    qed
  qed
qed

lemma hypercube_graph_fresh:
  "fresh h (hypercube_graph n h) (''hypercube_graph_('' @ str_int n @ '')'')"
proof (cases "grid_graph (replicate (nat n) (Count 2)) False h")
  case (Pair a h')
  show ?thesis
  proof (cases a)
    case (Inl e)
    then show ?thesis using Pair by (simp add: hypercube_graph_def)
  next
    case (Inr G)
    then show ?thesis
      using Pair grid_graph_fresh [of h "replicate (nat n) (Count 2)" False]
      by (simp add: hypercube_graph_def fresh_def mutate_nth_same take_mutate)
  qed
qed


subsection \<open>What the container held before the call\<close>

lemma clear_clear [simp]: "clear (clear G) = clear G"
  by (simp add: clear_def)

lemma mutate_clear_nth [simp]:
  "r < length h \<Longrightarrow> is_directed (mutate r clear h ! r) = is_directed (h ! r)"
  "r < length h \<Longrightarrow> is_multigraph (mutate r clear h ! r) = is_multigraph (h ! r)"
  by (simp_all add: mutate_list_update)




















subsection \<open>The generators through the public call surface\<close>

lemma run_fills:
  assumes "has_create_using g" "valid_cu cu h"
  shows "\<exists>l. fills cu h (run g cu h) l \<and> (on_format g \<longrightarrow> l = format_label g) \<and>
             (\<forall>n. g = Dorogovtsev_goltsev_mendes_graph n \<longrightarrow>
                  l = ''Dorogovtsev-Goltsev-Mendes Graph'')"
proof (cases g)
  case (Full_rary_tree r n)
  then show ?thesis using full_rary_tree_fills [OF assms(2)] by auto
next
  case (Balanced_tree r ht)
  then show ?thesis using balanced_tree_fills [OF assms(2)] by auto
next
  case (Barbell_graph m1 m2)
  then show ?thesis using barbell_graph_fills [OF assms(2)] by auto
next
  case (Complete_graph n)
  then show ?thesis using complete_graph_fills [OF assms(2), of n]
    by (auto simp: format_label_def)
next
  case (Circular_ladder_graph n)
  then show ?thesis using circular_ladder_graph_fills [OF assms(2), of n]
    by (auto simp: format_label_def)
next
  case (Circulant_graph n offsets)
  then show ?thesis using circulant_graph_fills [OF assms(2), of n offsets]
    by (auto simp: format_label_def repr_list_def)
next
  case (Cycle_graph n)
  then show ?thesis using cycle_graph_fills [OF assms(2), of n]
    by (auto simp: format_label_def)
next
  case (Dorogovtsev_goltsev_mendes_graph n)
  then show ?thesis using dorogovtsev_goltsev_mendes_graph_fills [OF assms(2), of n] by auto
next
  case (Empty_graph n)
  then show ?thesis using empty_graph_fills [OF assms(2), of n]
    by (auto simp: format_label_def)
next
  case (Grid_2d_graph m n periodic)
  then show ?thesis using grid_2d_graph_fills [OF assms(2), of m n periodic]
    by (cases periodic) (auto simp: format_label_def)
next
  case (Grid_graph dim periodic)
  with assms(1) show ?thesis by simp
next
  case (Hypercube_graph n)
  with assms(1) show ?thesis by simp
next
  case (Ladder_graph n)
  then show ?thesis using ladder_graph_fills [OF assms(2), of n] by auto
next
  case (Lollipop_graph m n)
  then show ?thesis using lollipop_graph_fills [OF assms(2), of m n]
    by (auto simp: format_label_def)
next
  case Null_graph
  then show ?thesis using null_graph_fills [OF assms(2)]
    by (auto simp: format_label_def)
next
  case (Path_graph n)
  then show ?thesis using path_graph_fills [OF assms(2), of n]
    by (auto simp: format_label_def)
next
  case (Star_graph n)
  then show ?thesis using star_graph_fills [OF assms(2), of n]
    by (auto simp: format_label_def)
next
  case Trivial_graph
  then show ?thesis using trivial_graph_fills [OF assms(2)]
    by (auto simp: format_label_def)
next
  case (Turan_graph n r)
  with assms(1) show ?thesis by simp
next
  case (Wheel_graph n)
  then show ?thesis using wheel_graph_fills [OF assms(2), of n]
    by (auto simp: format_label_def)
next
  case (Complete_multipartite_graph block_sizes)
  with assms(1) show ?thesis by simp
qed

lemma run_fresh:
  assumes "\<not> has_create_using g"
  shows "\<exists>l. fresh h (run g cu h) l \<and> (on_format g \<longrightarrow> l = format_label g)"
proof -
  consider dim periodic where "g = Grid_graph dim periodic"
    | n where "g = Hypercube_graph n"
    | n r where "g = Turan_graph n r"
    | bs where "g = Complete_multipartite_graph bs"
    using assms by (cases g) simp_all
  then show ?thesis
  proof cases
    case 1
    then show ?thesis using grid_graph_fresh [of h dim periodic]
      by (auto simp: format_label_def)
  next
    case 2
    then show ?thesis using hypercube_graph_fresh [of h n] by auto
  next
    case 3
    then show ?thesis using fills_None_fresh [OF turan_graph_fills [of h n r]] by auto
  next
    case 4
    then show ?thesis
      using fills_None_fresh [OF complete_multipartite_graph_fills [of h bs]] by auto
  qed
qed


lemma run_fresh_None:
  "\<exists>l. fresh h (run g None h) l \<and> (on_format g \<longrightarrow> l = format_label g) \<and>
       (\<forall>n. g = Dorogovtsev_goltsev_mendes_graph n \<longrightarrow>
            l = ''Dorogovtsev-Goltsev-Mendes Graph'')"
proof (cases "has_create_using g")
  case True
  from run_fills [OF True valid_cu_None, of h] show ?thesis
    by (auto dest: fills_None_fresh)
next
  case False
  then have "\<forall>n. g \<noteq> Dorogovtsev_goltsev_mendes_graph n" by auto
  with run_fresh [OF False, of h None] show ?thesis by auto
qed


subsection \<open>The graph built does not depend on where it is put\<close>

lemma alike_Inl [simp]: "alike cu h cu' k (Inl e, h') res'"
  by (simp add: alike_def)

lemma alike_place [simp]:
  "valid_cu cu h \<Longrightarrow>
   alike cu h cu' k (Inr (target cu h), place cu h g) res' =
     (res' = (Inr (target cu' k), place cu' k g))"
  by (auto simp: alike_def dest: place_inject)

lemma alike_returning [simp]:
  "valid_cu cu h \<Longrightarrow>
   alike cu h cu' k (returning (target cu h, place cu h g)) res' =
     (res' = (Inr (target cu' k), place cu' k g))"
  by (simp add: returning_def)

























subsection \<open>The container argument\<close>





subsection \<open>The names of the graphs\<close>

text \<open>
  Claim C9, as the code has it. For every live (or absent) container and every call that
  returns: a generator other than \<open>ladder_graph\<close>, \<open>hypercube_graph\<close>,
  \<open>dorogovtsev_goltsev_mendes_graph\<close>, \<open>complete_multipartite_graph\<close>, \<open>barbell_graph\<close>,
  \<open>turan_graph\<close>, \<open>full_rary_tree\<close>, \<open>balanced_tree\<close> and the periodic \<open>grid_2d_graph\<close> gives
  the returned graph the name \<open>"<family_name>(<param1>, <param2>, ...)"\<close>, with its size and
  node parameters rendered as given; \<open>dorogovtsev_goltsev_mendes_graph\<close> gives it the fixed
  name \<open>"Dorogovtsev-Goltsev-Mendes Graph"\<close>. The names of the other excepted generators are
  left open.
\<close>

theorem generator_label_format:
  "valid_cu cu h \<Longrightarrow> returns (call g cu h) gr \<Longrightarrow>
   (on_format g \<longrightarrow> name gr = format_label g) \<and>
   (\<forall>n. g = Dorogovtsev_goltsev_mendes_graph n \<longrightarrow>
        name gr = ''Dorogovtsev-Goltsev-Mendes Graph'')"
proof -
  assume v: "valid_cu cu h" and r: "returns (call g cu h) gr"
  show ?thesis
  proof (cases "has_create_using g")
    case True
    then have c: "call g cu h = run g cu h" by (simp add: call_def)
    from run_fills [OF True v] obtain l where
      f: "fills cu h (run g cu h) l" and
      l: "on_format g \<longrightarrow> l = format_label g"
         "\<forall>n. g = Dorogovtsev_goltsev_mendes_graph n \<longrightarrow>
              l = ''Dorogovtsev-Goltsev-Mendes Graph''"
      by blast
    from f have "name gr = l"
    proof (cases rule: fills_cases)
      case (1 e h')
      with r c show ?thesis by simp
    next
      case (2 g')
      with r c v show ?thesis by simp
    qed
    with l show ?thesis by simp
  next
    case False
    have n: "cu = None"
    proof (rule ccontr)
      assume "cu \<noteq> None"
      with False have "call g cu h = (Inl TypeError, h)" by (simp add: call_def)
      with r show False by simp
    qed
    then have c: "call g cu h = run g None h" by (simp add: call_def)
    from run_fresh_None [of h g] obtain l where
      f: "fresh h (run g None h) l" and
      l: "on_format g \<longrightarrow> l = format_label g"
         "\<forall>n. g = Dorogovtsev_goltsev_mendes_graph n \<longrightarrow>
              l = ''Dorogovtsev-Goltsev-Mendes Graph''"
      by blast
    from f r c have "name gr = l"
      by (auto simp: fresh_def returns_def split: prod.splits sum.splits)
    with l show ?thesis by simp
  qed
qed

theorem generator_label_format_witness:
  "\<exists>g1 g2. returns (call (Lollipop_graph (Count 3) (Count 2)) None []) g1 \<and>
           name g1 = ''lollipop_graph(3, 2)'' \<and>
           returns (call (Dorogovtsev_goltsev_mendes_graph 1) None []) g2 \<and>
           name g2 = ''Dorogovtsev-Goltsev-Mendes Graph''"
proof -
  have r1: "returns (call (Lollipop_graph (Count 3) (Count 2)) None [])
              (snd (call (Lollipop_graph (Count 3) (Count 2)) None []) ! 0)"
    by code_simp
  have r2: "returns (call (Dorogovtsev_goltsev_mendes_graph 1) None [])
              (snd (call (Dorogovtsev_goltsev_mendes_graph 1) None []) ! 0)"
    by code_simp
  have f: "format_label (Lollipop_graph (Count 3) (Count 2)) = ''lollipop_graph(3, 2)''"
    by code_simp
  from generator_label_format [OF valid_cu_None r1] generator_label_format [OF valid_cu_None r2]
    r1 r2 f show ?thesis by auto
qed

text \<open>
  The names of the excepted generators at concrete arguments; none has the format.
\<close>

theorem generator_labels_off_format:
  "(\<exists>g. returns (call (Ladder_graph 3) None []) g \<and> name g = ''ladder_graph_(3)'' \<and>
        name g \<noteq> format_label (Ladder_graph 3)) \<and>
   (\<exists>g. returns (call (Hypercube_graph 2) None []) g \<and> name g = ''hypercube_graph_(2)'' \<and>
        name g \<noteq> format_label (Hypercube_graph 2)) \<and>
   (\<exists>g. returns (call (Dorogovtsev_goltsev_mendes_graph 1) None []) g \<and>
        name g = ''Dorogovtsev-Goltsev-Mendes Graph'' \<and>
        name g \<noteq> format_label (Dorogovtsev_goltsev_mendes_graph 1)) \<and>
   (\<exists>g. returns (call (Complete_multipartite_graph [Count 1, Count 2]) None []) g \<and>
        name g = ''complete_multiparite_graph(1, 2)'' \<and>
        name g \<noteq> format_label (Complete_multipartite_graph [Count 1, Count 2])) \<and>
   (\<exists>g. returns (call (Barbell_graph 3 0) None []) g \<and> name g = ''barbell_graph(3,0)'' \<and>
        name g \<noteq> format_label (Barbell_graph 3 0)) \<and>
   (\<exists>g. returns (call (Turan_graph 4 2) None []) g \<and> name g = ''turan_graph(4,2)'' \<and>
        name g \<noteq> format_label (Turan_graph 4 2)) \<and>
   (\<exists>g. returns (call (Full_rary_tree 2 3) None []) g \<and> name g = ''empty_graph(3)'' \<and>
        name g \<noteq> format_label (Full_rary_tree 2 3)) \<and>
   (\<exists>g. returns (call (Balanced_tree 2 1) None []) g \<and> name g = ''empty_graph(3)'' \<and>
        name g \<noteq> format_label (Balanced_tree 2 1)) \<and>
   (\<exists>g. returns (call (Grid_2d_graph (Count 2) (Count 3) True) None []) g \<and>
        name g = ''periodic_grid_2d_graph((2, [0, 1]),(3, [0, 1, 2]))'' \<and>
        name g \<noteq> format_label (Grid_2d_graph (Count 2) (Count 3) True))"
proof (intro conjI)
  show "\<exists>g. returns (call (Ladder_graph 3) None []) g \<and> name g = ''ladder_graph_(3)'' \<and>
        name g \<noteq> format_label (Ladder_graph 3)"
    by (rule exI [of _ "snd (call (Ladder_graph 3) None []) ! 0"]) code_simp
  show "\<exists>g. returns (call (Hypercube_graph 2) None []) g \<and> name g = ''hypercube_graph_(2)'' \<and>
        name g \<noteq> format_label (Hypercube_graph 2)"
    by (rule exI [of _ "snd (call (Hypercube_graph 2) None []) ! 4"]) code_simp
  show "\<exists>g. returns (call (Dorogovtsev_goltsev_mendes_graph 1) None []) g \<and>
        name g = ''Dorogovtsev-Goltsev-Mendes Graph'' \<and>
        name g \<noteq> format_label (Dorogovtsev_goltsev_mendes_graph 1)"
    by (rule exI [of _ "snd (call (Dorogovtsev_goltsev_mendes_graph 1) None []) ! 0"]) code_simp
  show "\<exists>g. returns (call (Complete_multipartite_graph [Count 1, Count 2]) None []) g \<and>
        name g = ''complete_multiparite_graph(1, 2)'' \<and>
        name g \<noteq> format_label (Complete_multipartite_graph [Count 1, Count 2])"
    by (rule exI [of _ "snd (call (Complete_multipartite_graph [Count 1, Count 2]) None []) ! 0"])
       code_simp
  show "\<exists>g. returns (call (Barbell_graph 3 0) None []) g \<and> name g = ''barbell_graph(3,0)'' \<and>
        name g \<noteq> format_label (Barbell_graph 3 0)"
    by (rule exI [of _ "snd (call (Barbell_graph 3 0) None []) ! 0"]) code_simp
  show "\<exists>g. returns (call (Turan_graph 4 2) None []) g \<and> name g = ''turan_graph(4,2)'' \<and>
        name g \<noteq> format_label (Turan_graph 4 2)"
    by (rule exI [of _ "snd (call (Turan_graph 4 2) None []) ! 0"]) code_simp
  show "\<exists>g. returns (call (Full_rary_tree 2 3) None []) g \<and> name g = ''empty_graph(3)'' \<and>
        name g \<noteq> format_label (Full_rary_tree 2 3)"
    by (rule exI [of _ "snd (call (Full_rary_tree 2 3) None []) ! 0"]) code_simp
  show "\<exists>g. returns (call (Balanced_tree 2 1) None []) g \<and> name g = ''empty_graph(3)'' \<and>
        name g \<noteq> format_label (Balanced_tree 2 1)"
    by (rule exI [of _ "snd (call (Balanced_tree 2 1) None []) ! 0"]) code_simp
  show "\<exists>g. returns (call (Grid_2d_graph (Count 2) (Count 3) True) None []) g \<and>
        name g = ''periodic_grid_2d_graph((2, [0, 1]),(3, [0, 1, 2]))'' \<and>
        name g \<noteq> format_label (Grid_2d_graph (Count 2) (Count 3) True)"
    by (rule exI [of _ "snd (call (Grid_2d_graph (Count 2) (Count 3) True) None []) ! 0"])
       code_simp
qed


subsection \<open>star\_graph on a directed container\<close>

text \<open>
  Claim C1. The claim has a generator that raises leave no partial construction visible,
  and names \<open>star_graph\<close> on a directed container: it raises and the container is left
  unchanged. \<open>star_graph\<close> calls \<open>empty_graph(nodes, create_using)\<close> before it tests
  \<open>G.is_directed()\<close>: on a directed container holding the nodes 7, 8 and the edge (7, 8),
  \<open>star_graph(3, create_using=D)\<close> raises NetworkXError and leaves the container cleared and
  refilled with the nodes 0, 1, 2, 3 under the name \<open>empty_graph([0, 1, 2, 3])\<close>. The sibling
  \<open>ladder_graph\<close> (like \<open>barbell_graph\<close>, \<open>lollipop_graph\<close> and
  \<open>dorogovtsev_goltsev_mendes_graph\<close>) tests \<open>create_using.is_directed()\<close> before anything
  else and leaves the same container as it was.
\<close>

theorem star_graph_directed_container_refilled:
  "call (Star_graph (Count 3)) (Some 0)
     [Graph\<lparr>is_directed := True, name := ''kept'', nodes := [NInt 7, NInt 8],
            edges := [(NInt 7, NInt 8)]\<rparr>] =
   (Inl (NetworkXError ''Directed Graph not supported''),
    [Graph\<lparr>is_directed := True, name := ''empty_graph([0, 1, 2, 3])'',
           nodes := [NInt 0, NInt 1, NInt 2, NInt 3]\<rparr>]) \<and>
   call (Ladder_graph 3) (Some 0)
     [Graph\<lparr>is_directed := True, name := ''kept'', nodes := [NInt 7, NInt 8],
            edges := [(NInt 7, NInt 8)]\<rparr>] =
   (Inl (NetworkXError ''Directed Graph not supported''),
    [Graph\<lparr>is_directed := True, name := ''kept'', nodes := [NInt 7, NInt 8],
           edges := [(NInt 7, NInt 8)]\<rparr>])"
  by code_simp

end
